theory Spec2Isabelle
  imports Main "HOL-Library.AList"
begin

section \<open>The resolver of resolvelib (resolvers.py)\<close>

text \<open>
  Requirements \<open>'r\<close>, candidates \<open>'c\<close> and identifiers \<open>'k\<close> are opaque values owned by
  the provider; Python's \<open>==\<close> and \<open>!=\<close> on them are HOL equality. The parent of a
  requirement is a candidate or Python's \<open>None\<close> (the root marker): a \<open>'c option\<close>.
  The provider's callbacks are taken as pure functions that return normally.
\<close>

subsection \<open>Data model\<close>

text \<open>\<open>RequirementInformation\<close> is the named tuple (requirement, parent).\<close>

type_synonym ('r, 'c) RequirementInformation = "'r \<times> 'c option"

record ('r, 'c) Criterion =
  candidates :: "'c list"
  information :: "('r, 'c) RequirementInformation list"
  incompatibilities :: "'c list"

text \<open>
  The exceptions of the module, and the built-in Python exceptions that its statements can
  raise: \<open>AttributeError\<close> (reading an attribute an object does not have, with the
  attribute's name), \<open>KeyError\<close> (a missing dictionary key, \<open>popitem\<close> on an empty
  dictionary), \<open>IndexError\<close> (\<open>del xs[-1]\<close> on an empty list), \<open>RuntimeError\<close> and
  \<open>RecursionError\<close> (the interpreter's recursion limit).
\<close>

datatype ('r, 'c) error =
    RequirementsConflicted "('r, 'c) Criterion"
  | ResolutionImpossible "'r list"
  | ResolutionTooDeep int
  | AttributeError string
  | KeyError
  | IndexError
  | RuntimeError string
  | RecursionError

text \<open>
  The provider is supplied by the caller (its abstract class is not part of resolvers.py):
  a record of its five callbacks. \<open>get_preference\<close> returns an orderable value.
\<close>

record ('r, 'c, 'k, 'p) provider =
  identify :: "'r \<Rightarrow> 'k"
  get_preference :: "'c option \<Rightarrow> 'c list \<Rightarrow> ('r, 'c) RequirementInformation list \<Rightarrow> 'p"
  find_matches :: "'r \<Rightarrow> 'c list"
  is_satisfied_by :: "'r \<Rightarrow> 'c \<Rightarrow> bool"
  get_dependencies :: "'c \<Rightarrow> 'r list"

subsection \<open>Criterion\<close>

definition from_requirement ::
  "('r, 'c, 'k, 'p) provider \<Rightarrow> 'r \<Rightarrow> 'c option \<Rightarrow> ('r, 'c) Criterion" where
  "from_requirement p requirement parent =
     \<lparr>candidates = find_matches p requirement,
      information = [(requirement, parent)],
      incompatibilities = []\<rparr>"

definition iter_requirement :: "('r, 'c) Criterion \<Rightarrow> 'r list" where
  "iter_requirement self = map fst (information self)"

definition iter_parent :: "('r, 'c) Criterion \<Rightarrow> 'c option list" where
  "iter_parent self = map snd (information self)"

definition merged_with ::
  "('r, 'c) Criterion \<Rightarrow> ('r, 'c, 'k, 'p) provider \<Rightarrow> 'r \<Rightarrow> 'c option
     \<Rightarrow> ('r, 'c) error + ('r, 'c) Criterion" where
  "merged_with self p requirement parent =
     (let infos = information self @ [(requirement, parent)];
          cands = filter (\<lambda>c. is_satisfied_by p requirement c) (candidates self)
      in if cands = [] then Inl (RequirementsConflicted self)
         else Inr \<lparr>candidates = cands, information = infos,
                   incompatibilities = incompatibilities self\<rparr>)"

definition excluded_of ::
  "('r, 'c) Criterion \<Rightarrow> 'c \<Rightarrow> ('r, 'c) error + ('r, 'c) Criterion" where
  "excluded_of self candidate =
     (let incompats = incompatibilities self @ [candidate];
          cands = filter (\<lambda>c. c \<noteq> candidate) (candidates self)
      in if cands = [] then Inl (RequirementsConflicted self)
         else Inr \<lparr>candidates = cands, information = information self,
                   incompatibilities = incompats\<rparr>)"

subsection \<open>State and the state stack\<close>

text \<open>
  \<open>mapping\<close> is an \<open>OrderedDict\<close> and \<open>criteria\<close> a \<open>dict\<close>: association lists in
  insertion order. \<open>d[k] = v\<close> is \<open>AList.update\<close> (an existing key keeps its place, a
  new key goes to the end), \<open>d[k]\<close> is \<open>map_of\<close>, \<open>d.pop(k, None)\<close> is
  \<open>AList.delete\<close>, and \<open>d.copy()\<close> is the list itself.
\<close>

record ('r, 'c, 'k) State =
  mapping :: "('k \<times> 'c) list"
  criteria :: "('k \<times> ('r, 'c) Criterion) list"

text \<open>
  \<open>OrderedDict.popitem()\<close> removes and returns the last inserted pair; on an empty
  dictionary it raises \<open>KeyError\<close> (here \<open>None\<close>).
\<close>

definition popitem :: "('k \<times> 'v) list \<Rightarrow> (('k \<times> 'v) \<times> ('k \<times> 'v) list) option" where
  "popitem d = (if d = [] then None else Some (last d, butlast d))"

text \<open>\<open>d.clear()\<close> and \<open>d.update(other)\<close> on a dictionary.\<close>

definition dict_clear :: "('k \<times> 'v) list \<Rightarrow> ('k \<times> 'v) list" where
  "dict_clear d = []"

definition dict_update :: "('k \<times> 'v) list \<Rightarrow> ('k \<times> 'v) list \<Rightarrow> ('k \<times> 'v) list" where
  "dict_update d other = fold (\<lambda>(k, v) acc. AList.update k v acc) other d"

text \<open>
  The stack \<open>_states\<close> is kept with its top, Python's \<open>_states[-1]\<close>, at the head of
  the list.
\<close>

definition push_new_state :: "('r, 'c, 'k) State list \<Rightarrow> ('r, 'c, 'k) State list" where
  "push_new_state states =
     (case states of
        [] \<Rightarrow> [\<lparr>mapping = [], criteria = []\<rparr>]
      | base # _ \<Rightarrow> \<lparr>mapping = mapping base, criteria = criteria base\<rparr> # states)"

subsection \<open>Resolution\<close>

text \<open>
  The methods of \<open>Resolution\<close> that read and write \<open>self.state\<close> are functions of the
  current frame; \<open>resolve\<close> and the backtracking, which push and delete frames, are
  functions of the whole stack. A method that raises returns \<open>Inl\<close>.
\<close>

text \<open>
  \<open>_contribute_to_criteria\<close>: the exception of \<open>merged_with\<close> is raised before the
  assignment to \<open>criteria[name]\<close>, so the dictionary is unchanged when it raises.
\<close>

definition contribute_to_criteria ::
  "('r, 'c, 'k, 'p) provider \<Rightarrow> 'k \<Rightarrow> 'r \<Rightarrow> 'c option
     \<Rightarrow> ('k \<times> ('r, 'c) Criterion) list
     \<Rightarrow> ('r, 'c) error + ('k \<times> ('r, 'c) Criterion) list" where
  "contribute_to_criteria p name requirement parent crits =
     (case map_of crits name of
        None \<Rightarrow> Inr (AList.update name (from_requirement p requirement parent) crits)
      | Some crit \<Rightarrow>
          (case merged_with crit p requirement parent of
             Inl e \<Rightarrow> Inl e
           | Inr crit' \<Rightarrow> Inr (AList.update name crit' crits)))"

definition get_criterion_item_preference ::
  "('r, 'c, 'k, 'p) provider \<Rightarrow> ('r, 'c, 'k) State \<Rightarrow> 'k \<times> ('r, 'c) Criterion \<Rightarrow> 'p" where
  "get_criterion_item_preference p st item =
     (case item of (name, criterion) \<Rightarrow>
        get_preference p (map_of (mapping st) name) (candidates criterion)
          (information criterion))"

definition is_current_pin_satisfying ::
  "('r, 'c, 'k, 'p) provider \<Rightarrow> ('r, 'c, 'k) State \<Rightarrow> 'k \<Rightarrow> ('r, 'c) Criterion \<Rightarrow> bool" where
  "is_current_pin_satisfying p st name criterion =
     (case map_of (mapping st) name of
        None \<Rightarrow> False
      | Some current_pin \<Rightarrow>
          list_all (\<lambda>r. is_satisfied_by p r current_pin) (iter_requirement criterion))"

text \<open>
  The loop of \<open>_check_pinnability\<close> over the sub-dependencies: it returns the exception
  that ended it, if any, and the criteria dictionary as the loop left it.
\<close>

fun contribute_subdeps ::
  "('r, 'c, 'k, 'p) provider \<Rightarrow> 'c \<Rightarrow> 'r list \<Rightarrow> ('k \<times> ('r, 'c) Criterion) list
     \<Rightarrow> ('r, 'c) error option \<times> ('k \<times> ('r, 'c) Criterion) list" where
  "contribute_subdeps p candidate [] crits = (None, crits)"
| "contribute_subdeps p candidate (subdep # rest) crits =
     (case contribute_to_criteria p (identify p subdep) subdep (Some candidate) crits of
        Inl e \<Rightarrow> (Some e, crits)
      | Inr crits' \<Rightarrow> contribute_subdeps p candidate rest crits')"

definition check_pinnability ::
  "('r, 'c, 'k, 'p) provider \<Rightarrow> 'c \<Rightarrow> ('r, 'c, 'k) State
     \<Rightarrow> ('r, 'c) error + (bool \<times> ('r, 'c, 'k) State)" where
  "check_pinnability p candidate st =
     (let backup = criteria st in
      case contribute_subdeps p candidate (get_dependencies p candidate) (criteria st) of
        (None, crits) \<Rightarrow> Inr (True, st\<lparr>criteria := crits\<rparr>)
      | (Some (RequirementsConflicted c), crits) \<Rightarrow>
          Inr (False, st\<lparr>criteria := dict_update (dict_clear crits) backup\<rparr>)
      | (Some e, crits) \<Rightarrow> Inl e)"

text \<open>The loop of \<open>_pin_criterion\<close> over \<open>reversed(criterion.candidates)\<close>.\<close>

fun pin_candidates ::
  "('r, 'c, 'k, 'p) provider \<Rightarrow> 'k \<Rightarrow> 'c list \<Rightarrow> ('r, 'c, 'k) State
     \<Rightarrow> ('r, 'c) error + (bool \<times> ('r, 'c, 'k) State)" where
  "pin_candidates p name [] st = Inr (False, st)"
| "pin_candidates p name (candidate # rest) st =
     (case check_pinnability p candidate st of
        Inl e \<Rightarrow> Inl e
      | Inr (ok, st') \<Rightarrow>
          if \<not> ok then pin_candidates p name rest st'
          else Inr (True,
                 st'\<lparr>mapping := AList.update name candidate (AList.delete name (mapping st'))\<rparr>))"

definition pin_criterion ::
  "('r, 'c, 'k, 'p) provider \<Rightarrow> 'k \<Rightarrow> ('r, 'c) Criterion \<Rightarrow> ('r, 'c, 'k) State
     \<Rightarrow> ('r, 'c) error + (bool \<times> ('r, 'c, 'k) State)" where
  "pin_criterion p name criterion st = pin_candidates p name (rev (candidates criterion)) st"

text \<open>
  \<open>_backtrack_to_last_workable_state\<close>. A \<open>Criterion\<close> object is always true in
  \<open>while criterion\<close> (the class defines neither \<open>__bool__\<close> nor \<open>__len__\<close>), so each
  iteration deletes the top frame. When \<open>excluded_of\<close> raises, the assignment to
  \<open>criterion\<close> has not happened: the loop continues with the criterion it had.
\<close>

fun backtrack_to_last_workable_state ::
  "('r, 'c, 'k) State list \<Rightarrow> ('r, 'c) Criterion \<Rightarrow> ('r, 'c) error + ('r, 'c, 'k) State list" where
  "backtrack_to_last_workable_state [] criterion = Inl IndexError"
| "backtrack_to_last_workable_state [popped] criterion =
     Inl (ResolutionImpossible (iter_requirement criterion))"
| "backtrack_to_last_workable_state (popped # st # below) criterion =
     (case popitem (mapping st) of
        None \<Rightarrow> Inl KeyError
      | Some ((name, candidate), m) \<Rightarrow>
          (case map_of (criteria st) name of
             None \<Rightarrow> Inl KeyError
           | Some crit \<Rightarrow>
               (case excluded_of crit candidate of
                  Inl (RequirementsConflicted c) \<Rightarrow>
                    backtrack_to_last_workable_state (st\<lparr>mapping := m\<rparr> # below) criterion
                | Inl e \<Rightarrow> Inl e
                | Inr criterion' \<Rightarrow>
                    Inr (st\<lparr>mapping := m,
                            criteria := AList.update name criterion' (criteria st)\<rparr> # below))))"

text \<open>
  \<open>min(items, key=f)\<close> keeps the first item whose key is least: a later item replaces
  the best one only when its key is strictly smaller.
\<close>

fun min_by :: "('a \<Rightarrow> 'p::linorder) \<Rightarrow> 'a \<Rightarrow> 'a list \<Rightarrow> 'a" where
  "min_by key best [] = best"
| "min_by key best (x # xs) = min_by key (if key x < key best then x else best) xs"

text \<open>
  Reading \<open>e.requirements\<close> on an exception object: only \<open>ResolutionImpossible\<close> sets
  that attribute (\<open>RequirementsConflicted\<close> sets \<open>criterion\<close>, \<open>ResolutionTooDeep\<close>
  sets \<open>round_count\<close>), so on any other exception the read raises \<open>AttributeError\<close>.
\<close>

fun requirements_attr :: "('r, 'c) error \<Rightarrow> ('r, 'c) error + 'r list" where
  "requirements_attr (ResolutionImpossible requirements) = Inr requirements"
| "requirements_attr e = Inl (AttributeError ''requirements'')"

text \<open>
  The first loop of \<open>resolve\<close>, over the root requirements, with its handler
  \<open>raise ResolutionImpossible(e.requirements + [requirement])\<close>.
\<close>

fun contribute_roots ::
  "('r, 'c, 'k, 'p) provider \<Rightarrow> 'r list \<Rightarrow> ('k \<times> ('r, 'c) Criterion) list
     \<Rightarrow> ('r, 'c) error + ('k \<times> ('r, 'c) Criterion) list" where
  "contribute_roots p [] crits = Inr crits"
| "contribute_roots p (requirement # rest) crits =
     (case contribute_to_criteria p (identify p requirement) requirement None crits of
        Inl (RequirementsConflicted c) \<Rightarrow>
          (case requirements_attr (RequirementsConflicted c) of
             Inl e' \<Rightarrow> Inl e'
           | Inr rs \<Rightarrow> Inl (ResolutionImpossible (rs @ [requirement])))
      | Inl e \<Rightarrow> Inl e
      | Inr crits' \<Rightarrow> contribute_roots p rest crits')"

text \<open>
  One iteration of the round loop of \<open>resolve\<close>. The result is \<open>(True, states)\<close> when
  the iteration returns from \<open>resolve\<close> and \<open>(False, states)\<close> when the loop goes on.
  The reporter's calls are observational and left out.
\<close>

definition resolve_round ::
  "('r, 'c, 'k, 'p::linorder) provider \<Rightarrow> ('r, 'c, 'k) State list
     \<Rightarrow> ('r, 'c) error + (bool \<times> ('r, 'c, 'k) State list)" where
  "resolve_round p states =
     (case push_new_state states of
        [] \<Rightarrow> Inl (AttributeError ''state'')
      | current # below \<Rightarrow>
          (case filter (\<lambda>(name, criterion). \<not> is_current_pin_satisfying p current name criterion)
                  (criteria current) of
             [] \<Rightarrow> Inr (True, below)
           | item # items \<Rightarrow>
               (case min_by (get_criterion_item_preference p current) item items of
                  (name, criterion) \<Rightarrow>
                    (case pin_criterion p name criterion current of
                       Inl e \<Rightarrow> Inl e
                     | Inr (success, current') \<Rightarrow>
                         if \<not> success then
                           (case backtrack_to_last_workable_state (current' # below) criterion of
                              Inl e \<Rightarrow> Inl e
                            | Inr states' \<Rightarrow> Inr (False, states'))
                         else Inr (False, current' # below)))))"

text \<open>\<open>for round_index in range(max_rounds)\<close>, with \<open>n\<close> iterations left.\<close>

fun resolve_rounds ::
  "('r, 'c, 'k, 'p::linorder) provider \<Rightarrow> int \<Rightarrow> nat \<Rightarrow> ('r, 'c, 'k) State list
     \<Rightarrow> ('r, 'c) error + ('r, 'c, 'k) State list" where
  "resolve_rounds p max_rounds 0 states = Inl (ResolutionTooDeep max_rounds)"
| "resolve_rounds p max_rounds (Suc n) states =
     (case resolve_round p states of
        Inl e \<Rightarrow> Inl e
      | Inr (returned, states') \<Rightarrow>
          if returned then Inr states' else resolve_rounds p max_rounds n states')"

definition resolve ::
  "('r, 'c, 'k, 'p::linorder) provider \<Rightarrow> ('r, 'c, 'k) State list \<Rightarrow> 'r list \<Rightarrow> int
     \<Rightarrow> ('r, 'c) error + ('r, 'c, 'k) State list" where
  "resolve p states requirements max_rounds =
     (if states \<noteq> [] then Inl (RuntimeError ''already resolved'')
      else case push_new_state states of
             [] \<Rightarrow> Inl (AttributeError ''state'')
           | st # below \<Rightarrow>
               (case contribute_roots p requirements (criteria st) of
                  Inl e \<Rightarrow> Inl e
                | Inr crits \<Rightarrow>
                    resolve_rounds p max_rounds (nat max_rounds)
                      (st\<lparr>criteria := crits\<rparr> # below)))"

subsection \<open>The result\<close>

text \<open>
  Modelled from the spec: the class \<open>DirectedGraph\<close> of structs.py, which is not among
  the sources. The spec gives it a set of vertices, a set of directed edges, and the
  operations add(v), connect(u, v) (idempotent) and contains(v). A vertex is an
  identifier \<open>Some k\<close> or the root marker \<open>None\<close>.
\<close>

record 'v DirectedGraph =
  vertices :: "'v set"
  edges :: "('v \<times> 'v) set"

definition graph_empty :: "'v DirectedGraph" where
  "graph_empty = \<lparr>vertices = {}, edges = {}\<rparr>"

definition graph_add :: "'v DirectedGraph \<Rightarrow> 'v \<Rightarrow> 'v DirectedGraph" where
  "graph_add g v = g\<lparr>vertices := insert v (vertices g)\<rparr>"

definition graph_connect :: "'v DirectedGraph \<Rightarrow> 'v \<Rightarrow> 'v \<Rightarrow> 'v DirectedGraph" where
  "graph_connect g u v = g\<lparr>edges := insert (u, v) (edges g)\<rparr>"

definition graph_contains :: "'v DirectedGraph \<Rightarrow> 'v \<Rightarrow> bool" where
  "graph_contains g v = (v \<in> vertices g)"

text \<open>
  \<open>all_keys\<close> maps \<open>id(v)\<close> of each pinned candidate \<open>v\<close> to its identifier and
  \<open>id(None)\<close> to \<open>None\<close>. The object identity \<open>id(v)\<close> is the value \<open>v\<close> itself
  here: candidates that are equal are one object, so the graph and the pruning of the
  mapping are those of the code only for providers that hand out one object per candidate
  value. A vertex is \<open>Some k\<close> for an identifier and \<open>None\<close> for the root marker: the
  provider's identifiers are taken to differ from Python's \<open>None\<close>. In the dictionary
  comprehension a later pair replaces an earlier one with the same key.
\<close>

definition all_keys_of :: "('k \<times> 'c) list \<Rightarrow> ('c option \<rightharpoonup> 'k option)" where
  "all_keys_of m = (fold (\<lambda>(k, v) d. d(Some v \<mapsto> Some k)) m Map.empty)(None \<mapsto> None)"

text \<open>
  \<open>_has_route_to_root\<close> is recursive and mutates the set \<open>connected\<close>; it returns its
  result with the set. Parents that depend on each other without a route to the root make
  the recursion endless, which Python ends with \<open>RecursionError\<close>: \<open>d\<close> is the number
  of nested calls the interpreter still allows. \<open>route_parents\<close> is the loop over
  \<open>criteria[key].iter_parent()\<close>.
\<close>

fun has_route_to_root ::
  "nat \<Rightarrow> ('k \<times> ('r, 'c) Criterion) list \<Rightarrow> 'k option \<Rightarrow> ('c option \<rightharpoonup> 'k option)
     \<Rightarrow> 'k option set \<Rightarrow> ('r, 'c) error + (bool \<times> 'k option set)"
and route_parents ::
  "nat \<Rightarrow> ('k \<times> ('r, 'c) Criterion) list \<Rightarrow> 'k option \<Rightarrow> ('c option \<rightharpoonup> 'k option)
     \<Rightarrow> 'c option list \<Rightarrow> 'k option set \<Rightarrow> ('r, 'c) error + (bool \<times> 'k option set)"
where
  "has_route_to_root 0 crits key all_keys connected = Inl RecursionError"
| "has_route_to_root (Suc d) crits key all_keys connected =
     (if key \<in> connected then Inr (True, connected)
      else case key of
             None \<Rightarrow> Inr (False, connected)
           | Some k \<Rightarrow>
               (case map_of crits k of
                  None \<Rightarrow> Inr (False, connected)
                | Some crit \<Rightarrow> route_parents d crits key all_keys (iter_parent crit) connected))"
| "route_parents d crits key all_keys [] connected = Inr (False, connected)"
| "route_parents d crits key all_keys (p # ps) connected =
     (case all_keys p of
        None \<Rightarrow> route_parents d crits key all_keys ps connected
      | Some pkey \<Rightarrow>
          if pkey \<in> connected then Inr (True, insert key connected)
          else (case has_route_to_root d crits pkey all_keys connected of
                  Inl e \<Rightarrow> Inl e
                | Inr (found, connected') \<Rightarrow>
                    if found then Inr (True, insert key connected')
                    else route_parents d crits key all_keys ps connected'))"

text \<open>The inner loop of \<open>_build_result\<close> over the parents of a reachable key.\<close>

fun connect_parents ::
  "('c option \<rightharpoonup> 'k option) \<Rightarrow> 'k \<Rightarrow> 'c option list \<Rightarrow> 'k option DirectedGraph
     \<Rightarrow> 'k option DirectedGraph" where
  "connect_parents all_keys key [] g = g"
| "connect_parents all_keys key (p # ps) g =
     (case all_keys p of
        None \<Rightarrow> connect_parents all_keys key ps g
      | Some pkey \<Rightarrow>
          connect_parents all_keys key ps
            (graph_connect (if \<not> graph_contains g pkey then graph_add g pkey else g)
               pkey (Some key)))"

text \<open>The outer loop of \<open>_build_result\<close> over \<open>state.criteria.items()\<close>.\<close>

fun build_graph ::
  "nat \<Rightarrow> ('k \<times> ('r, 'c) Criterion) list \<Rightarrow> ('c option \<rightharpoonup> 'k option)
     \<Rightarrow> ('k \<times> ('r, 'c) Criterion) list \<Rightarrow> 'k option DirectedGraph \<Rightarrow> 'k option set
     \<Rightarrow> ('r, 'c) error + ('k option DirectedGraph \<times> 'k option set)" where
  "build_graph d crits all_keys [] g connected = Inr (g, connected)"
| "build_graph d crits all_keys ((key, criterion) # items) g connected =
     (case has_route_to_root d crits (Some key) all_keys connected of
        Inl e \<Rightarrow> Inl e
      | Inr (found, connected') \<Rightarrow>
          if \<not> found then build_graph d crits all_keys items g connected'
          else build_graph d crits all_keys items
                 (connect_parents all_keys key (iter_parent criterion)
                    (if \<not> graph_contains g (Some key) then graph_add g (Some key) else g))
                 connected')"

record ('r, 'c, 'k) Result =
  mapping :: "('k \<times> 'c) list"
  graph :: "'k option DirectedGraph"
  criteria :: "('k \<times> ('r, 'c) Criterion) list"

definition build_result ::
  "nat \<Rightarrow> ('r, 'c, 'k) State \<Rightarrow> ('r, 'c) error + ('r, 'c, 'k) Result" where
  "build_result d state =
     (let m = State.mapping state;
          all_keys = all_keys_of m
      in case build_graph d (State.criteria state) all_keys (State.criteria state)
                (graph_add graph_empty None) {None} of
           Inl e \<Rightarrow> Inl e
         | Inr (g, connected) \<Rightarrow>
             Inr \<lparr>mapping = filter (\<lambda>(k, v). Some k \<in> connected) m,
                  graph = g,
                  criteria = State.criteria state\<rparr>)"

text \<open>
  \<open>Resolver.resolve\<close>: a fresh \<open>Resolution\<close> (an empty stack), \<open>resolve\<close>, then
  \<open>_build_result(resolution.state)\<close>; the property \<open>state\<close> raises
  \<open>AttributeError\<close> on an empty stack. \<open>d\<close> is the interpreter's allowance of nested
  calls for \<open>_has_route_to_root\<close>.
\<close>

definition Resolver_resolve ::
  "nat \<Rightarrow> ('r, 'c, 'k, 'p::linorder) provider \<Rightarrow> 'r list \<Rightarrow> int
     \<Rightarrow> ('r, 'c) error + ('r, 'c, 'k) Result" where
  "Resolver_resolve d p requirements max_rounds =
     (case resolve p [] requirements max_rounds of
        Inl e \<Rightarrow> Inl e
      | Inr states \<Rightarrow>
          (case states of
             [] \<Rightarrow> Inl (AttributeError ''state'')
           | state # below \<Rightarrow> build_result d state))"

subsection \<open>Invariants\<close>

text \<open>A criterion's candidates and incompatibilities share no element.\<close>

definition crit_disjoint :: "('r, 'c) Criterion \<Rightarrow> bool" where
  "crit_disjoint c = (set (candidates c) \<inter> set (incompatibilities c) = {})"

text \<open>A criteria dictionary has each key once, and every criterion in it is disjoint.\<close>

definition crits_ok :: "('k \<times> ('r, 'c) Criterion) list \<Rightarrow> bool" where
  "crits_ok crits =
     (distinct (map fst crits) \<and> (\<forall>k c. map_of crits k = Some c \<longrightarrow> crit_disjoint c))"

text \<open>Every key of the first dictionary is in the second with the same incompatibilities.\<close>

definition incompat_kept ::
  "('k \<times> ('r, 'c) Criterion) list \<Rightarrow> ('k \<times> ('r, 'c) Criterion) list \<Rightarrow> bool" where
  "incompat_kept crits crits' =
     (\<forall>k c. map_of crits k = Some c \<longrightarrow>
        (\<exists>c'. map_of crits' k = Some c' \<and> incompatibilities c' = incompatibilities c))"

text \<open>Every pinned identifier has a criterion, and its pin is not among the incompatibilities.\<close>

definition pins_ok :: "('k \<times> 'c) list \<Rightarrow> ('k \<times> ('r, 'c) Criterion) list \<Rightarrow> bool" where
  "pins_ok m crits =
     (\<forall>k v. map_of m k = Some v \<longrightarrow>
        (\<exists>c. map_of crits k = Some c \<and> v \<notin> set (incompatibilities c)))"

definition state_ok :: "('r, 'c, 'k) State \<Rightarrow> bool" where
  "state_ok st =
     (distinct (map fst (State.mapping st)) \<and> crits_ok (State.criteria st)
      \<and> pins_ok (State.mapping st) (State.criteria st))"

text \<open>The test that ends \<open>resolve\<close>: no criterion is left whose pin does not satisfy it.\<close>

definition all_satisfied :: "('r, 'c, 'k, 'p) provider \<Rightarrow> ('r, 'c, 'k) State \<Rightarrow> bool" where
  "all_satisfied p st =
     (\<forall>k c. map_of (State.criteria st) k = Some c \<longrightarrow> is_current_pin_satisfying p st k c)"

text \<open>
  The stacks that \<open>resolve\<close> goes through on the root requirements \<open>rs\<close>: the stack
  after the root requirements are contributed, and the stack after each iteration of the
  round loop.
\<close>

inductive reachable ::
  "('r, 'c, 'k, 'p::linorder) provider \<Rightarrow> 'r list \<Rightarrow> ('r, 'c, 'k) State list \<Rightarrow> bool"
  for p rs where
  start: "contribute_roots p rs [] = Inr crits
            \<Longrightarrow> reachable p rs [\<lparr>State.mapping = [], criteria = crits\<rparr>]"
| round: "reachable p rs states \<Longrightarrow> resolve_round p states = Inr (returned, states')
            \<Longrightarrow> reachable p rs states'"

subsection \<open>A provider for concrete runs\<close>

text \<open>
  Identifiers are numbers, a candidate is (identifier, version), and a requirement
  (identifier, lo, hi) is satisfied by the candidates of that identifier with
  \<open>lo \<le> version < hi\<close>. Identifiers 0, 2, 3 and 4 have the versions 2 and 1, in
  this order of preference, identifier 1 has the version 1, and no other identifier has a
  candidate. Candidate (0, 2) depends on (2, 2, 10), candidate (0, 1) on (2, 1, 10),
  candidate (1, 1) on (2, 0, 2), candidate (3, 2) on (4, 2, 10), and candidate (4, 1) on
  (4, 1, 2) and (5, 0, 10). The criterion with the fewest candidates is preferred.
\<close>

definition example_candidates :: "nat \<Rightarrow> (nat \<times> nat) list" where
  "example_candidates n =
     (if n = 0 \<or> n = 2 \<or> n = 3 \<or> n = 4 then [(n, 2), (n, 1)]
      else if n = 1 then [(1, 1)] else [])"

definition example_dependencies :: "nat \<times> nat \<Rightarrow> (nat \<times> nat \<times> nat) list" where
  "example_dependencies c =
     (if c = (0, 2) then [(2, 2, 10)] else if c = (0, 1) then [(2, 1, 10)]
      else if c = (1, 1) then [(2, 0, 2)] else if c = (3, 2) then [(4, 2, 10)]
      else if c = (4, 1) then [(4, 1, 2), (5, 0, 10)] else [])"

definition example_provider :: "(nat \<times> nat \<times> nat, nat \<times> nat, nat, nat) provider" where
  "example_provider =
     \<lparr>identify = fst,
      get_preference = (\<lambda>pinned cands infos. length cands),
      find_matches = (\<lambda>(n, lo, hi). filter (\<lambda>(m, v). lo \<le> v \<and> v < hi) (example_candidates n)),
      is_satisfied_by = (\<lambda>(n, lo, hi) (m, v). n = m \<and> lo \<le> v \<and> v < hi),
      get_dependencies = example_dependencies\<rparr>"

section \<open>Properties\<close>

subsection \<open>Criterion\<close>

lemma merged_with_Inr_iff:
  "merged_with self p R parent = Inr c' \<longleftrightarrow>
     filter (\<lambda>c. is_satisfied_by p R c) (candidates self) \<noteq> []
     \<and> c' = \<lparr>candidates = filter (\<lambda>c. is_satisfied_by p R c) (candidates self),
             information = information self @ [(R, parent)],
             incompatibilities = incompatibilities self\<rparr>"
  by (auto simp: merged_with_def Let_def)

lemma merged_with_Inl_iff:
  "merged_with self p R parent = Inl e \<longleftrightarrow>
     filter (\<lambda>c. is_satisfied_by p R c) (candidates self) = []
     \<and> e = RequirementsConflicted self"
  by (auto simp: merged_with_def Let_def)

lemma excluded_of_Inr_iff:
  "excluded_of self C = Inr c' \<longleftrightarrow>
     filter (\<lambda>c. c \<noteq> C) (candidates self) \<noteq> []
     \<and> c' = \<lparr>candidates = filter (\<lambda>c. c \<noteq> C) (candidates self),
             information = information self,
             incompatibilities = incompatibilities self @ [C]\<rparr>"
  by (auto simp: excluded_of_def Let_def)

lemma excluded_of_Inl_iff:
  "excluded_of self C = Inl e \<longleftrightarrow>
     filter (\<lambda>c. c \<noteq> C) (candidates self) = [] \<and> e = RequirementsConflicted self"
  by (auto simp: excluded_of_def Let_def)

lemma from_requirement_disjoint: "crit_disjoint (from_requirement p R parent)"
  by (simp add: crit_disjoint_def from_requirement_def)

lemma merged_with_disjoint:
  "crit_disjoint c \<Longrightarrow> merged_with c p R parent = Inr c' \<Longrightarrow> crit_disjoint c'"
  by (auto simp: merged_with_Inr_iff crit_disjoint_def)

lemma excluded_of_disjoint:
  "crit_disjoint c \<Longrightarrow> excluded_of c C = Inr c' \<Longrightarrow> crit_disjoint c'"
  by (auto simp: excluded_of_Inr_iff crit_disjoint_def)

lemma incompat_kept_refl: "incompat_kept crits crits"
  by (simp add: incompat_kept_def)

lemma incompat_kept_trans:
  "incompat_kept a b \<Longrightarrow> incompat_kept b c \<Longrightarrow> incompat_kept a c"
  unfolding incompat_kept_def by (metis)

lemma pins_ok_kept: "pins_ok m crits \<Longrightarrow> incompat_kept crits crits' \<Longrightarrow> pins_ok m crits'"
  unfolding pins_ok_def incompat_kept_def by metis

lemma crits_ok_update:
  "crits_ok crits \<Longrightarrow> crit_disjoint c \<Longrightarrow> crits_ok (AList.update k c crits)"
  by (auto simp: crits_ok_def distinct_update update_conv' split: if_splits)

lemma contribute_to_criteria_conflict:
  "contribute_to_criteria p name R parent crits = Inl e \<Longrightarrow> \<exists>c. e = RequirementsConflicted c"
  by (auto simp: contribute_to_criteria_def merged_with_Inl_iff split: option.splits sum.splits)

lemma contribute_to_criteria_ok:
  assumes "contribute_to_criteria p name R parent crits = Inr crits'" and "crits_ok crits"
  shows "crits_ok crits' \<and> incompat_kept crits crits'"
proof (cases "map_of crits name")
  case None
  with assms(1) have eq: "crits' = AList.update name (from_requirement p R parent) crits"
    by (simp add: contribute_to_criteria_def)
  have "crits_ok crits'"
    unfolding eq using assms(2) from_requirement_disjoint by (rule crits_ok_update)
  moreover have "incompat_kept crits crits'"
    unfolding eq incompat_kept_def using None by (auto simp: update_conv')
  ultimately show ?thesis by simp
next
  case (Some crit)
  with assms(1) obtain crit' where m: "merged_with crit p R parent = Inr crit'"
    and eq: "crits' = AList.update name crit' crits"
    by (auto simp: contribute_to_criteria_def split: sum.splits)
  from assms(2) Some have "crit_disjoint crit" by (auto simp: crits_ok_def)
  then have "crit_disjoint crit'" using m by (rule merged_with_disjoint)
  then have "crits_ok crits'" unfolding eq using assms(2) by (simp add: crits_ok_update)
  moreover have "incompatibilities crit' = incompatibilities crit"
    using m by (auto simp: merged_with_Inr_iff)
  then have "incompat_kept crits crits'"
    unfolding eq incompat_kept_def using Some by (auto simp: update_conv')
  ultimately show ?thesis by simp
qed

lemma contribute_subdeps_conflict:
  "contribute_subdeps p C deps crits = (Some e, crits') \<Longrightarrow> \<exists>c. e = RequirementsConflicted c"
  by (induction deps arbitrary: crits)
     (auto split: sum.splits dest: contribute_to_criteria_conflict)

lemma contribute_subdeps_ok:
  "contribute_subdeps p C deps crits = (None, crits') \<Longrightarrow> crits_ok crits
     \<Longrightarrow> crits_ok crits' \<and> incompat_kept crits crits'"
proof (induction deps arbitrary: crits)
  case Nil
  then show ?case by (simp add: incompat_kept_refl)
next
  case (Cons subdep rest)
  from Cons.prems(1) obtain mid where
    c: "contribute_to_criteria p (identify p subdep) subdep (Some C) crits = Inr mid"
    and r: "contribute_subdeps p C rest mid = (None, crits')"
    by (auto split: sum.splits)
  from contribute_to_criteria_ok [OF c Cons.prems(2)]
  have "crits_ok mid" and k: "incompat_kept crits mid" by simp_all
  with Cons.IH [OF r] show ?case by (blast intro: incompat_kept_trans)
qed

lemma fold_update_append:
  "distinct (map fst (acc @ b))
     \<Longrightarrow> fold (\<lambda>(k, v) acc. AList.update k v acc) b acc = acc @ b"
proof (induction b arbitrary: acc)
  case Nil
  then show ?case by simp
next
  case (Cons x b)
  obtain k v where x: "x = (k, v)" by (cases x)
  from Cons.prems have "k \<notin> fst ` set acc" by (auto simp: x)
  then have u: "AList.update k v acc = acc @ [(k, v)]"
    by (induction acc) auto
  from Cons.prems have "distinct (map fst ((acc @ [(k, v)]) @ b))" by (simp add: x)
  from Cons.IH [OF this] show ?case by (simp add: x u)
qed

lemma dict_restore:
  "distinct (map fst backup) \<Longrightarrow> dict_update (dict_clear crits) backup = backup"
  using fold_update_append [of "[]" backup] by (simp add: dict_update_def dict_clear_def)

lemma check_pinnability_cases:
  assumes "distinct (map fst (State.criteria st))"
  shows "(\<exists>crits. contribute_subdeps p C (get_dependencies p C) (State.criteria st) = (None, crits)
            \<and> check_pinnability p C st = Inr (True, st\<lparr>State.criteria := crits\<rparr>))
       \<or> (\<exists>c crits. contribute_subdeps p C (get_dependencies p C) (State.criteria st)
              = (Some (RequirementsConflicted c), crits)
            \<and> check_pinnability p C st = Inr (False, st))"
proof (cases "contribute_subdeps p C (get_dependencies p C) (State.criteria st)")
  case (Pair r crits)
  show ?thesis
  proof (cases r)
    case None
    with Pair show ?thesis by (simp add: check_pinnability_def)
  next
    case (Some e)
    with Pair have "contribute_subdeps p C (get_dependencies p C) (State.criteria st) = (Some e, crits)"
      by simp
    from contribute_subdeps_conflict [OF this] obtain c where "e = RequirementsConflicted c"
      by blast
    with Pair Some show ?thesis
      by (simp add: check_pinnability_def dict_restore [OF assms])
  qed
qed

subsection \<open>The claims about Criterion\<close>

text \<open>
  C5. \<open>merged_with(provider, R, parent)\<close> returns a criterion exactly when some
  candidate satisfies \<open>R\<close>; that criterion has the information of \<open>self\<close> with
  \<open>(R, parent)\<close> appended, the candidates of \<open>self\<close> that satisfy \<open>R\<close> in their
  order, and the incompatibilities of \<open>self\<close>. It raises exactly when no candidate
  satisfies \<open>R\<close>, and then the exception is \<open>RequirementsConflicted\<close> carrying
  \<open>self\<close> as it was: \<open>self\<close> is a value that the operation does not change.
\<close>

theorem merged_with_spec:
  "(merged_with self p R parent = Inr c' \<longleftrightarrow>
      filter (\<lambda>c. is_satisfied_by p R c) (candidates self) \<noteq> []
      \<and> candidates c' = filter (\<lambda>c. is_satisfied_by p R c) (candidates self)
      \<and> information c' = information self @ [(R, parent)]
      \<and> incompatibilities c' = incompatibilities self)
   \<and> (merged_with self p R parent = Inl e \<longleftrightarrow>
      filter (\<lambda>c. is_satisfied_by p R c) (candidates self) = []
      \<and> e = RequirementsConflicted self)"
  unfolding merged_with_Inr_iff merged_with_Inl_iff by auto

theorem merged_with_spec_witness:
  "merged_with \<lparr>candidates = [(2, 2), (2, 1)], information = [((2, 1, 10), Some (0, 1))],
                 incompatibilities = [(2, 3)]\<rparr> example_provider (2, 0, 2) (Some (1, 1))
     = Inr \<lparr>candidates = [(2, 1)],
            information = [((2, 1, 10), Some (0, 1)), ((2, 0, 2), Some (1, 1))],
            incompatibilities = [(2, 3)]\<rparr>
   \<and> merged_with \<lparr>candidates = [(2, 2), (2, 1)], information = [((2, 1, 10), Some (0, 1))],
                 incompatibilities = [(2, 3)]\<rparr> example_provider (2, 0, 1) None
     = Inl (RequirementsConflicted \<lparr>candidates = [(2, 2), (2, 1)],
              information = [((2, 1, 10), Some (0, 1))], incompatibilities = [(2, 3)]\<rparr>)"
  using merged_with_spec [of "\<lparr>candidates = [(2, 2), (2, 1)],
      information = [((2, 1, 10), Some (0, 1))], incompatibilities = [(2, 3)]\<rparr>"
      example_provider "(2, 0, 2)" "Some (1, 1)"
      "\<lparr>candidates = [(2, 1)],
            information = [((2, 1, 10), Some (0, 1)), ((2, 0, 2), Some (1, 1))],
            incompatibilities = [(2, 3)]\<rparr>"]
    merged_with_spec [of "\<lparr>candidates = [(2, 2), (2, 1)],
      information = [((2, 1, 10), Some (0, 1))], incompatibilities = [(2, 3)]\<rparr>"
      example_provider "(2, 0, 1)" None _
      "RequirementsConflicted \<lparr>candidates = [(2, 2), (2, 1)],
              information = [((2, 1, 10), Some (0, 1))], incompatibilities = [(2, 3)]\<rparr>"]
  by (simp add: example_provider_def)

text \<open>
  C6. \<open>excluded_of(C)\<close> returns a criterion exactly when a candidate other than \<open>C\<close>
  is left; that criterion has the incompatibilities of \<open>self\<close> with \<open>C\<close> appended, the
  candidates of \<open>self\<close> without any occurrence of \<open>C\<close> in their order, and the
  information of \<open>self\<close>. It raises exactly when no candidate is left, and then the
  exception is \<open>RequirementsConflicted\<close> carrying \<open>self\<close> as it was.
\<close>

theorem excluded_of_spec:
  "(excluded_of self C = Inr c' \<longleftrightarrow>
      filter (\<lambda>c. c \<noteq> C) (candidates self) \<noteq> []
      \<and> candidates c' = filter (\<lambda>c. c \<noteq> C) (candidates self)
      \<and> information c' = information self
      \<and> incompatibilities c' = incompatibilities self @ [C])
   \<and> (excluded_of self C = Inl e \<longleftrightarrow>
      filter (\<lambda>c. c \<noteq> C) (candidates self) = [] \<and> e = RequirementsConflicted self)"
  unfolding excluded_of_Inr_iff excluded_of_Inl_iff by auto

theorem excluded_of_spec_witness:
  "excluded_of \<lparr>candidates = [(2, 2), (2, 1), (2, 2 :: nat)],
                 information = [((2 :: nat, 1 :: nat, 10 :: nat), Some (0 :: nat, 1 :: nat))],
                 incompatibilities = [(2 :: nat, 3)]\<rparr> (2, 2)
     = Inr \<lparr>candidates = [(2, 1)], information = [((2, 1, 10), Some (0, 1))],
            incompatibilities = [(2, 3), (2, 2)]\<rparr>
   \<and> excluded_of \<lparr>candidates = [(2, 2), (2, 2 :: nat)],
                 information = [((2 :: nat, 1 :: nat, 10 :: nat), Some (0 :: nat, 1 :: nat))],
                 incompatibilities = [(2 :: nat, 3)]\<rparr> (2, 2)
     = Inl (RequirementsConflicted \<lparr>candidates = [(2, 2), (2, 2)],
              information = [((2, 1, 10), Some (0, 1))], incompatibilities = [(2, 3)]\<rparr>)"
  using excluded_of_spec [of "\<lparr>candidates = [(2, 2), (2, 1), (2, 2 :: nat)],
      information = [((2 :: nat, 1 :: nat, 10 :: nat), Some (0 :: nat, 1 :: nat))],
      incompatibilities = [(2 :: nat, 3)]\<rparr>" "(2, 2)"
      "\<lparr>candidates = [(2, 1)], information = [((2, 1, 10), Some (0, 1))],
            incompatibilities = [(2, 3), (2, 2)]\<rparr>"]
    excluded_of_spec [of "\<lparr>candidates = [(2, 2), (2, 2 :: nat)],
      information = [((2 :: nat, 1 :: nat, 10 :: nat), Some (0 :: nat, 1 :: nat))],
      incompatibilities = [(2 :: nat, 3)]\<rparr>" "(2, 2)" _
      "RequirementsConflicted \<lparr>candidates = [(2, 2), (2, 2)],
              information = [((2, 1, 10), Some (0, 1))], incompatibilities = [(2, 3)]\<rparr>"]
  by simp

text \<open>
  C8. The claim is that \<open>from_requirement\<close> fails with \<open>RequirementsConflicted\<close> when
  \<open>find_matches(R)\<close> is empty. The function has no such check: for identifier 5, which
  has no candidate, it returns a criterion whose candidate list is empty.
\<close>

theorem from_requirement_no_matches:
  "find_matches example_provider (5, 1, 10) = []
   \<and> from_requirement example_provider (5, 1, 10) None
       = \<lparr>candidates = [], information = [((5, 1, 10), None)], incompatibilities = []\<rparr>"
  by (simp add: from_requirement_def example_provider_def example_candidates_def)

subsection \<open>The pinnability check\<close>

lemma contribute_subdeps_first_conflict:
  "(\<exists>crits'. contribute_subdeps p C deps crits = (Some e, crits')) \<longleftrightarrow>
     (\<exists>pre R post mid. deps = pre @ R # post
        \<and> contribute_subdeps p C pre crits = (None, mid)
        \<and> contribute_to_criteria p (identify p R) R (Some C) mid = Inl e)"
proof (induction deps arbitrary: crits)
  case Nil
  then show ?case by simp
next
  case (Cons subdep rest)
  show ?case
  proof (cases "contribute_to_criteria p (identify p subdep) subdep (Some C) crits")
    case (Inl e')
    show ?thesis
    proof
      assume "\<exists>crits'. contribute_subdeps p C (subdep # rest) crits = (Some e, crits')"
      with Inl have "e' = e" by simp
      with Inl have "subdep # rest = [] @ subdep # rest
        \<and> contribute_subdeps p C [] crits = (None, crits)
        \<and> contribute_to_criteria p (identify p subdep) subdep (Some C) crits = Inl e"
        by simp
      then show "\<exists>pre R post mid. subdep # rest = pre @ R # post
        \<and> contribute_subdeps p C pre crits = (None, mid)
        \<and> contribute_to_criteria p (identify p R) R (Some C) mid = Inl e"
        by blast
    next
      assume "\<exists>pre R post mid. subdep # rest = pre @ R # post
        \<and> contribute_subdeps p C pre crits = (None, mid)
        \<and> contribute_to_criteria p (identify p R) R (Some C) mid = Inl e"
      then obtain pre R post mid where d: "subdep # rest = pre @ R # post"
        and s: "contribute_subdeps p C pre crits = (None, mid)"
        and c: "contribute_to_criteria p (identify p R) R (Some C) mid = Inl e"
        by blast
      have "pre = []"
      proof (cases pre)
        case Nil
        then show ?thesis .
      next
        case (Cons a pre')
        with d have "a = subdep" by simp
        with Cons s Inl show ?thesis by simp
      qed
      with d s c Inl have "e' = e" by simp
      with Inl show "\<exists>crits'. contribute_subdeps p C (subdep # rest) crits = (Some e, crits')"
        by simp
    qed
  next
    case (Inr crits1)
    have "(\<exists>crits'. contribute_subdeps p C (subdep # rest) crits = (Some e, crits'))
      \<longleftrightarrow> (\<exists>crits'. contribute_subdeps p C rest crits1 = (Some e, crits'))"
      using Inr by simp
    also have "\<dots> \<longleftrightarrow> (\<exists>pre R post mid. rest = pre @ R # post
        \<and> contribute_subdeps p C pre crits1 = (None, mid)
        \<and> contribute_to_criteria p (identify p R) R (Some C) mid = Inl e)"
      by (rule Cons.IH)
    also have "\<dots> \<longleftrightarrow> (\<exists>pre R post mid. subdep # rest = pre @ R # post
        \<and> contribute_subdeps p C pre crits = (None, mid)
        \<and> contribute_to_criteria p (identify p R) R (Some C) mid = Inl e)"
    proof
      assume "\<exists>pre R post mid. rest = pre @ R # post
        \<and> contribute_subdeps p C pre crits1 = (None, mid)
        \<and> contribute_to_criteria p (identify p R) R (Some C) mid = Inl e"
      then obtain pre R post mid where "rest = pre @ R # post"
        "contribute_subdeps p C pre crits1 = (None, mid)"
        "contribute_to_criteria p (identify p R) R (Some C) mid = Inl e" by blast
      with Inr have "subdep # rest = (subdep # pre) @ R # post
        \<and> contribute_subdeps p C (subdep # pre) crits = (None, mid)
        \<and> contribute_to_criteria p (identify p R) R (Some C) mid = Inl e" by simp
      then show "\<exists>pre R post mid. subdep # rest = pre @ R # post
        \<and> contribute_subdeps p C pre crits = (None, mid)
        \<and> contribute_to_criteria p (identify p R) R (Some C) mid = Inl e" by blast
    next
      assume "\<exists>pre R post mid. subdep # rest = pre @ R # post
        \<and> contribute_subdeps p C pre crits = (None, mid)
        \<and> contribute_to_criteria p (identify p R) R (Some C) mid = Inl e"
      then obtain pre R post mid where d: "subdep # rest = pre @ R # post"
        and s: "contribute_subdeps p C pre crits = (None, mid)"
        and c: "contribute_to_criteria p (identify p R) R (Some C) mid = Inl e"
        by blast
      show "\<exists>pre R post mid. rest = pre @ R # post
        \<and> contribute_subdeps p C pre crits1 = (None, mid)
        \<and> contribute_to_criteria p (identify p R) R (Some C) mid = Inl e"
      proof (cases pre)
        case Nil
        with d s c Inr show ?thesis by simp
      next
        case (Cons a pre')
        with d have "a = subdep" and "rest = pre' @ R # post" by simp_all
        moreover from Cons s Inr \<open>a = subdep\<close>
        have "contribute_subdeps p C pre' crits1 = (None, mid)" by simp
        ultimately show ?thesis using c by blast
      qed
    qed
    finally show ?thesis .
  qed
qed

text \<open>
  C7. On a frame whose criteria dictionary has each key once, \<open>_check_pinnability(C)\<close>
  returns a boolean and leaves \<open>mapping\<close> as it was. It returns false exactly when,
  going through \<open>get_dependencies(C)\<close> in order, the contributions before some
  sub-dependency succeed and the contribution of that one raises
  \<open>RequirementsConflicted\<close>; then the criteria dictionary is the one before the call.
  When it returns true the criteria dictionary is the one the contributions produced.
\<close>

theorem check_pinnability_atomic:
  assumes "distinct (map fst (State.criteria st))"
  shows "\<exists>ok st'. check_pinnability p C st = Inr (ok, st')
           \<and> State.mapping st' = State.mapping st
           \<and> (\<not> ok \<longleftrightarrow> (\<exists>pre R post mid c. get_dependencies p C = pre @ R # post
                 \<and> contribute_subdeps p C pre (State.criteria st) = (None, mid)
                 \<and> contribute_to_criteria p (identify p R) R (Some C) mid
                       = Inl (RequirementsConflicted c)))
           \<and> (\<not> ok \<longrightarrow> State.criteria st' = State.criteria st)
           \<and> (ok \<longrightarrow> contribute_subdeps p C (get_dependencies p C) (State.criteria st)
                        = (None, State.criteria st'))"
proof -
  let ?run = "contribute_subdeps p C (get_dependencies p C) (State.criteria st)"
  define conflict where
    "conflict \<longleftrightarrow> (\<exists>pre R post mid c. get_dependencies p C = pre @ R # post
                 \<and> contribute_subdeps p C pre (State.criteria st) = (None, mid)
                 \<and> contribute_to_criteria p (identify p R) R (Some C) mid
                       = Inl (RequirementsConflicted c))"
  have conflict: "conflict \<longleftrightarrow> (\<exists>c crits'. ?run = (Some (RequirementsConflicted c), crits'))"
    unfolding conflict_def
    using contribute_subdeps_first_conflict [of p C "get_dependencies p C" "State.criteria st"]
    by blast
  have "\<exists>ok st'. check_pinnability p C st = Inr (ok, st')
           \<and> State.mapping st' = State.mapping st
           \<and> (\<not> ok \<longleftrightarrow> conflict)
           \<and> (\<not> ok \<longrightarrow> State.criteria st' = State.criteria st)
           \<and> (ok \<longrightarrow> ?run = (None, State.criteria st'))"
    using check_pinnability_cases [OF assms, of p C]
  proof (elim disjE exE conjE)
    fix crits
    assume run: "?run = (None, crits)"
      and chk: "check_pinnability p C st = Inr (True, st\<lparr>State.criteria := crits\<rparr>)"
    from run have "\<not> conflict" unfolding conflict by simp
    with run chk show ?thesis
      by (intro exI [of _ True] exI [of _ "st\<lparr>State.criteria := crits\<rparr>"]) simp
  next
    fix c crits
    assume run: "?run = (Some (RequirementsConflicted c), crits)"
      and chk: "check_pinnability p C st = Inr (False, st)"
    from run have conflict unfolding conflict by blast
    with chk show ?thesis
      by (intro exI [of _ False] exI [of _ st]) simp
  qed
  then show ?thesis unfolding conflict_def .
qed

theorem check_pinnability_atomic_witness:
  "distinct (map fst (State.criteria \<lparr>State.mapping = [(1 :: nat, (1 :: nat, 1 :: nat))],
          criteria = [(2 :: nat, \<lparr>candidates = [(2, 1)],
                            information = [((2 :: nat, 0 :: nat, 2 :: nat), Some (1, 1))],
                            incompatibilities = []\<rparr>)]\<rparr>))
   \<and> check_pinnability example_provider (0, 2)
        \<lparr>State.mapping = [(1, (1, 1))],
          criteria = [(2, \<lparr>candidates = [(2, 1)], information = [((2, 0, 2), Some (1, 1))],
                            incompatibilities = []\<rparr>)]\<rparr>
      = Inr (False, \<lparr>State.mapping = [(1, (1, 1))],
          criteria = [(2, \<lparr>candidates = [(2, 1)], information = [((2, 0, 2), Some (1, 1))],
                            incompatibilities = []\<rparr>)]\<rparr>)
   \<and> check_pinnability example_provider (0, 1)
        \<lparr>State.mapping = [(1, (1, 1))],
          criteria = [(2, \<lparr>candidates = [(2, 1)], information = [((2, 0, 2), Some (1, 1))],
                            incompatibilities = []\<rparr>)]\<rparr>
      = Inr (True, \<lparr>State.mapping = [(1, (1, 1))],
          criteria = [(2, \<lparr>candidates = [(2, 1)],
                            information = [((2, 0, 2), Some (1, 1)), ((2, 1, 10), Some (0, 1))],
                            incompatibilities = []\<rparr>)]\<rparr>)"
proof -
  let ?st = "\<lparr>State.mapping = [(1 :: nat, (1 :: nat, 1 :: nat))],
          criteria = [(2 :: nat, \<lparr>candidates = [(2 :: nat, 1 :: nat)],
                            information = [((2 :: nat, 0 :: nat, 2 :: nat), Some (1 :: nat, 1 :: nat))],
                            incompatibilities = []\<rparr>)]\<rparr>"
  have d: "distinct (map fst (State.criteria ?st))" by simp
  have a: "check_pinnability example_provider (0, 2) ?st = Inr (False, ?st)"
    by (simp add: check_pinnability_def example_provider_def example_dependencies_def
          contribute_to_criteria_def merged_with_def dict_update_def dict_clear_def)
  have b: "check_pinnability example_provider (0, 1) ?st
      = Inr (True, \<lparr>State.mapping = [(1, (1, 1))],
          criteria = [(2, \<lparr>candidates = [(2, 1)],
                            information = [((2, 0, 2), Some (1, 1)), ((2, 1, 10), Some (0, 1))],
                            incompatibilities = []\<rparr>)]\<rparr>)"
    by (simp add: check_pinnability_def example_provider_def example_dependencies_def
          contribute_to_criteria_def merged_with_def)
  from check_pinnability_atomic [OF d, of example_provider "(0, 2)"] d a b
  show ?thesis by blast
qed

subsection \<open>Errors of the root requirements and of backtracking\<close>

text \<open>
  C2. The claim is that a conflict among the root requirements makes \<open>resolve\<close> fail
  with \<open>ResolutionImpossible\<close>. For the roots \<open>(0, 1, 10)\<close> and \<open>(0, 0, 1)\<close> the
  second contribution raises \<open>RequirementsConflicted\<close>; the handler then reads
  \<open>e.requirements\<close>, an attribute that exception does not have, and \<open>resolve\<close> ends
  with \<open>AttributeError\<close>.
\<close>

theorem root_conflict_attribute_error:
  "contribute_to_criteria example_provider 0 (0, 0, 1) None
       [(0, \<lparr>candidates = [(0, 2), (0, 1)], information = [((0, 1, 10), None)],
              incompatibilities = []\<rparr>)]
     = Inl (RequirementsConflicted \<lparr>candidates = [(0, 2), (0, 1)],
              information = [((0, 1, 10), None)], incompatibilities = []\<rparr>)
   \<and> resolve example_provider [] [(0, 1, 10), (0, 0, 1)] 100
     = Inl (AttributeError ''requirements'')"
  by (simp add: resolve_def push_new_state_def contribute_to_criteria_def from_requirement_def
        merged_with_def example_provider_def example_candidates_def)

text \<open>
  C3. The claim is that \<open>ResolutionImpossible\<close> and \<open>ResolutionTooDeep\<close> are the only
  exceptions that leave \<open>resolve\<close>. For the roots \<open>(0, 2, 10)\<close> and \<open>(2, 0, 2)\<close> the
  only candidate of identifier 0 cannot be pinned in the first round; the backtracking
  deletes the round's frame and calls \<open>popitem\<close> on the empty mapping of the initial
  frame, and \<open>KeyError\<close> leaves \<open>Resolver.resolve\<close>.
\<close>

theorem resolve_escaping_key_error:
  "Resolver_resolve 1000 example_provider [(0, 2, 10), (2, 0, 2)] 100 = Inl KeyError"
  by code_simp

subsection \<open>No root requirements\<close>

text \<open>
  C10. With no root requirements and \<open>max_rounds \<ge> 1\<close>, for every provider: the first
  iteration of the round loop finds nothing to pin and returns, \<open>resolve\<close> ends with the
  initial frame alone on the stack, and \<open>Resolver.resolve\<close> returns the result with an
  empty mapping, empty criteria, and a graph whose only vertex is the root marker
  \<open>None\<close> and which has no edge.
\<close>

theorem resolve_empty:
  "1 \<le> max_rounds \<Longrightarrow>
     resolve_round p [\<lparr>State.mapping = [], criteria = []\<rparr>]
       = Inr (True, [\<lparr>State.mapping = [], criteria = []\<rparr>])
     \<and> resolve p [] [] max_rounds = Inr [\<lparr>State.mapping = [], criteria = []\<rparr>]
     \<and> Resolver_resolve d p [] max_rounds
       = Inr \<lparr>mapping = [], graph = \<lparr>vertices = {None}, edges = {}\<rparr>, criteria = []\<rparr>"
proof -
  assume "1 \<le> max_rounds"
  then obtain n where n: "nat max_rounds = Suc n" by (cases "nat max_rounds") auto
  have r: "resolve_round p [\<lparr>State.mapping = [], criteria = []\<rparr>]
       = Inr (True, [\<lparr>State.mapping = [], criteria = []\<rparr>])"
    by (simp add: resolve_round_def push_new_state_def)
  have s: "resolve p [] [] max_rounds = Inr [\<lparr>State.mapping = [], criteria = []\<rparr>]"
    by (simp add: resolve_def push_new_state_def n r)
  have "Resolver_resolve d p [] max_rounds
       = Inr \<lparr>mapping = [], graph = \<lparr>vertices = {None}, edges = {}\<rparr>, criteria = []\<rparr>"
    by (simp add: Resolver_resolve_def s build_result_def graph_add_def graph_empty_def
          all_keys_of_def)
  with r s show ?thesis by simp
qed

theorem resolve_empty_witness:
  "(1 :: int) \<le> 1
   \<and> resolve example_provider [] [] 1 = Inr [\<lparr>State.mapping = [], criteria = []\<rparr>]
   \<and> Resolver_resolve 0 example_provider [] 1
       = Inr \<lparr>mapping = [], graph = \<lparr>vertices = {None}, edges = {}\<rparr>, criteria = []\<rparr>"
proof -
  have h: "(1 :: int) \<le> 1" by simp
  from resolve_empty [OF h, of example_provider 0] h show ?thesis by simp
qed

subsection \<open>The invariant of the state stack\<close>

lemma check_pinnability_ok:
  assumes "check_pinnability p C st = Inr (ok, st')" and "state_ok st"
  shows "state_ok st' \<and> State.mapping st' = State.mapping st
           \<and> incompat_kept (State.criteria st) (State.criteria st')"
proof -
  from assms(2) have d: "distinct (map fst (State.criteria st))"
    by (simp add: state_ok_def crits_ok_def)
  from check_pinnability_cases [OF d, of p C]
  show ?thesis
  proof (elim disjE exE conjE)
    fix crits
    assume run: "contribute_subdeps p C (get_dependencies p C) (State.criteria st) = (None, crits)"
      and chk: "check_pinnability p C st = Inr (True, st\<lparr>State.criteria := crits\<rparr>)"
    from assms(2) have "crits_ok (State.criteria st)" by (simp add: state_ok_def)
    from contribute_subdeps_ok [OF run this]
    have c: "crits_ok crits" and k: "incompat_kept (State.criteria st) crits" by simp_all
    from assms(2) k have "pins_ok (State.mapping st) crits"
      by (auto simp: state_ok_def intro: pins_ok_kept)
    with c k assms chk show ?thesis by (auto simp: state_ok_def)
  next
    fix c crits
    assume "check_pinnability p C st = Inr (False, st)"
    with assms show ?thesis by (simp add: incompat_kept_refl)
  qed
qed

lemma pin_update_ok:
  assumes "state_ok st" and "map_of (State.criteria st) name = Some c"
    and "candidate \<notin> set (incompatibilities c)"
  shows "state_ok (st\<lparr>State.mapping :=
           AList.update name candidate (AList.delete name (State.mapping st))\<rparr>)"
proof -
  have "pins_ok (AList.update name candidate (AList.delete name (State.mapping st)))
          (State.criteria st)"
    using assms unfolding pins_ok_def state_ok_def
    by (auto simp: update_conv' delete_conv' split: if_splits)
  with assms(1) show ?thesis
    by (simp add: state_ok_def distinct_update distinct_delete)
qed

lemma pin_candidates_ok:
  "pin_candidates p name cands st = Inr (ok, st') \<Longrightarrow> state_ok st
     \<Longrightarrow> map_of (State.criteria st) name = Some c
     \<Longrightarrow> \<forall>x \<in> set cands. x \<notin> set (incompatibilities c)
     \<Longrightarrow> state_ok st'"
proof (induction cands arbitrary: st c)
  case Nil
  then show ?case by simp
next
  case (Cons candidate rest)
  from Cons.prems(1) obtain ok1 st1 where
    chk: "check_pinnability p candidate st = Inr (ok1, st1)"
    by (auto split: sum.splits)
  from check_pinnability_ok [OF chk Cons.prems(2)]
  have ok1: "state_ok st1" and k: "incompat_kept (State.criteria st) (State.criteria st1)"
    by simp_all
  from k Cons.prems(3) obtain c1 where
    c1: "map_of (State.criteria st1) name = Some c1"
    and i: "incompatibilities c1 = incompatibilities c"
    by (auto simp: incompat_kept_def)
  show ?case
  proof (cases ok1)
    case True
    with Cons.prems(1) chk have
      "st' = st1\<lparr>State.mapping :=
         AList.update name candidate (AList.delete name (State.mapping st1))\<rparr>"
      by simp
    moreover from Cons.prems(4) i have "candidate \<notin> set (incompatibilities c1)" by simp
    ultimately show ?thesis using pin_update_ok [OF ok1 c1] by simp
  next
    case False
    with Cons.prems(1) chk have "pin_candidates p name rest st1 = Inr (ok, st')" by simp
    moreover from Cons.prems(4) i have "\<forall>x \<in> set rest. x \<notin> set (incompatibilities c1)"
      by simp
    ultimately show ?thesis using Cons.IH ok1 c1 by blast
  qed
qed

lemma pin_criterion_ok:
  assumes "pin_criterion p name criterion st = Inr (ok, st')" and "state_ok st"
    and "map_of (State.criteria st) name = Some criterion"
  shows "state_ok st'"
proof -
  from assms(2,3) have "crit_disjoint criterion" by (auto simp: state_ok_def crits_ok_def)
  then have "\<forall>x \<in> set (rev (candidates criterion)). x \<notin> set (incompatibilities criterion)"
    by (auto simp: crit_disjoint_def)
  with assms show ?thesis unfolding pin_criterion_def by (rule pin_candidates_ok)
qed

lemma state_ok_drop_last:
  assumes "state_ok st" and "State.mapping st = m @ [(name, candidate)]"
  shows "state_ok (st\<lparr>State.mapping := m\<rparr>)"
proof -
  have "pins_ok m (State.criteria st)"
    using assms unfolding state_ok_def pins_ok_def by (auto simp: map_of_append)
  with assms show ?thesis by (simp add: state_ok_def)
qed

lemma state_ok_exclude:
  assumes "state_ok st" and "State.mapping st = m @ [(name, candidate)]"
    and "map_of (State.criteria st) name = Some crit"
    and "excluded_of crit candidate = Inr crit'"
  shows "state_ok (st\<lparr>State.mapping := m,
           State.criteria := AList.update name crit' (State.criteria st)\<rparr>)"
proof -
  from assms(1,3) have "crit_disjoint crit" by (auto simp: state_ok_def crits_ok_def)
  then have "crit_disjoint crit'" using assms(4) by (rule excluded_of_disjoint)
  with assms(1) have c: "crits_ok (AList.update name crit' (State.criteria st))"
    by (simp add: state_ok_def crits_ok_update)
  from assms(1,2) have "name \<notin> fst ` set m" by (auto simp: state_ok_def)
  then have n: "map_of m name = None" by (simp add: map_of_eq_None_iff)
  have "pins_ok m (AList.update name crit' (State.criteria st))"
    unfolding pins_ok_def
  proof (intro allI impI)
    fix k v assume kv: "map_of m k = Some v"
    with n have "k \<noteq> name" by auto
    moreover from kv assms(2) have "map_of (State.mapping st) k = Some v"
      by (simp add: map_of_append)
    with assms(1) obtain c where "map_of (State.criteria st) k = Some c"
      "v \<notin> set (incompatibilities c)" unfolding state_ok_def pins_ok_def by blast
    ultimately show "\<exists>c. map_of (AList.update name crit' (State.criteria st)) k = Some c
        \<and> v \<notin> set (incompatibilities c)"
      by (simp add: update_conv')
  qed
  with c assms(1,2) show ?thesis by (simp add: state_ok_def)
qed

lemma popitem_Some: "popitem d = Some (x, m) \<Longrightarrow> d = m @ [x]"
  by (auto simp: popitem_def split: if_splits)

lemma backtrack_ok:
  "backtrack_to_last_workable_state states trigger = Inr states'
     \<Longrightarrow> \<forall>st \<in> set states. state_ok st
     \<Longrightarrow> states' \<noteq> [] \<and> (\<forall>st \<in> set states'. state_ok st)"
proof (induction states trigger arbitrary: states' rule: backtrack_to_last_workable_state.induct)
  case (1 criterion)
  then show ?case by simp
next
  case (2 popped criterion)
  then show ?case by simp
next
  case (3 popped st below criterion)
  from "3.prems"(1) obtain name candidate m crit where
    pop: "popitem (State.mapping st) = Some ((name, candidate), m)"
    and crit: "map_of (State.criteria st) name = Some crit"
    by (auto split: option.splits)
  from popitem_Some [OF pop] have m: "State.mapping st = m @ [(name, candidate)]" .
  from "3.prems"(2) have st: "state_ok st" and below: "\<forall>s \<in> set below. state_ok s"
    by simp_all
  show ?case
  proof (cases "excluded_of crit candidate")
    case (Inl e)
    then obtain c where e: "e = RequirementsConflicted c"
      by (auto simp: excluded_of_Inl_iff)
    with Inl pop crit "3.prems"(1) have
      r: "backtrack_to_last_workable_state (st\<lparr>State.mapping := m\<rparr> # below) criterion
            = Inr states'"
      by simp
    from state_ok_drop_last [OF st m] below
    have "\<forall>s \<in> set (st\<lparr>State.mapping := m\<rparr> # below). state_ok s" by simp
    from "3.IH" [OF pop refl refl crit Inl e r this] show ?thesis .
  next
    case (Inr crit')
    with pop crit "3.prems"(1) have
      "states' = st\<lparr>State.mapping := m,
          State.criteria := AList.update name crit' (State.criteria st)\<rparr> # below"
      by simp
    with state_ok_exclude [OF st m crit Inr] below show ?thesis by simp
  qed
qed

lemma min_by_in: "min_by key best xs \<in> set (best # xs)"
  by (induction xs arbitrary: best) auto

lemma push_new_state_Cons: "push_new_state (st # rest) = st # st # rest"
  by (simp add: push_new_state_def)

lemma filter_pending_empty:
  assumes "filter (\<lambda>(name, criterion). \<not> is_current_pin_satisfying p st name criterion)
             (State.criteria st) = []"
  shows "all_satisfied p st"
  unfolding all_satisfied_def
proof (intro allI impI)
  fix k c assume "map_of (State.criteria st) k = Some c"
  then have "(k, c) \<in> set (State.criteria st)" by (rule map_of_SomeD)
  with assms show "is_current_pin_satisfying p st k c"
    by (auto simp: filter_empty_conv)
qed

lemma resolve_round_ok:
  assumes "resolve_round p states = Inr (returned, states')" and "states \<noteq> []"
    and "\<forall>st \<in> set states. state_ok st"
  shows "states' \<noteq> [] \<and> (\<forall>st \<in> set states'. state_ok st)
           \<and> (returned \<longrightarrow> states' = states \<and> all_satisfied p (hd states))"
proof -
  from assms(2) obtain st rest where states: "states = st # rest" by (cases states) auto
  with assms(3) have st: "state_ok st" and rest: "\<forall>s \<in> set rest. state_ok s" by simp_all
  let ?pending = "filter (\<lambda>(name, criterion). \<not> is_current_pin_satisfying p st name criterion)
                    (State.criteria st)"
  show ?thesis
  proof (cases ?pending)
    case Nil
    with assms(1) have "returned" and "states' = states"
      by (simp_all add: resolve_round_def states push_new_state_Cons)
    with Nil assms(2,3) states filter_pending_empty [of p st] show ?thesis by simp
  next
    case (Cons item items)
    obtain name criterion where
      chosen: "min_by (get_criterion_item_preference p st) item items = (name, criterion)"
      by (cases "min_by (get_criterion_item_preference p st) item items")
    from min_by_in [of "get_criterion_item_preference p st" item items] chosen Cons
    have "(name, criterion) \<in> set ?pending" by simp
    then have "(name, criterion) \<in> set (State.criteria st)" by simp
    moreover from st have "distinct (map fst (State.criteria st))"
      by (simp add: state_ok_def crits_ok_def)
    ultimately have crit: "map_of (State.criteria st) name = Some criterion" by simp
    from assms(1) Cons chosen obtain success current' where
      pin: "pin_criterion p name criterion st = Inr (success, current')"
      by (auto simp: resolve_round_def states push_new_state_Cons split: sum.splits)
    from pin_criterion_ok [OF pin st crit] have cur: "state_ok current'" .
    show ?thesis
    proof (cases success)
      case True
      with assms(1) Cons chosen pin have "\<not> returned" and "states' = current' # st # rest"
        by (simp_all add: resolve_round_def states push_new_state_Cons)
      with cur st rest show ?thesis by simp
    next
      case False
      with assms(1) Cons chosen pin have nr: "\<not> returned"
        and b: "backtrack_to_last_workable_state (current' # st # rest) criterion = Inr states'"
        by (auto simp: resolve_round_def states push_new_state_Cons split: sum.splits)
      from cur st rest have "\<forall>s \<in> set (current' # st # rest). state_ok s" by simp
      from backtrack_ok [OF b this] nr show ?thesis by simp
    qed
  qed
qed

lemma resolve_rounds_ok:
  "resolve_rounds p max_rounds n states = Inr states' \<Longrightarrow> states \<noteq> []
     \<Longrightarrow> \<forall>st \<in> set states. state_ok st
     \<Longrightarrow> states' \<noteq> [] \<and> (\<forall>st \<in> set states'. state_ok st) \<and> all_satisfied p (hd states')"
proof (induction n arbitrary: states)
  case 0
  then show ?case by simp
next
  case (Suc n)
  from Suc.prems(1) obtain returned states1 where
    r: "resolve_round p states = Inr (returned, states1)"
    by (auto split: sum.splits)
  note ok = resolve_round_ok [OF r Suc.prems(2,3)]
  show ?case
  proof (cases returned)
    case True
    with Suc.prems(1) r have "states' = states1" by simp
    with ok True show ?thesis by auto
  next
    case False
    with Suc.prems(1) r have "resolve_rounds p max_rounds n states1 = Inr states'" by simp
    with Suc.IH ok show ?thesis by blast
  qed
qed

lemma contribute_roots_ok:
  "contribute_roots p rs crits = Inr crits' \<Longrightarrow> crits_ok crits \<Longrightarrow> crits_ok crits'"
proof (induction rs arbitrary: crits)
  case Nil
  then show ?case by simp
next
  case (Cons requirement rest)
  from Cons.prems(1) obtain mid where
    c: "contribute_to_criteria p (identify p requirement) requirement None crits = Inr mid"
    and r: "contribute_roots p rest mid = Inr crits'"
    by (auto split: sum.splits error.splits)
  from contribute_to_criteria_ok [OF c Cons.prems(2)] have "crits_ok mid" by simp
  with Cons.IH r show ?case by blast
qed

lemma initial_state_ok:
  "crits_ok crits \<Longrightarrow> state_ok \<lparr>State.mapping = [], criteria = crits\<rparr>"
  by (simp add: state_ok_def pins_ok_def)

lemma resolve_ok:
  assumes "resolve p [] rs max_rounds = Inr states"
  shows "states \<noteq> [] \<and> (\<forall>st \<in> set states. state_ok st) \<and> all_satisfied p (hd states)"
proof -
  from assms obtain crits where
    c: "contribute_roots p rs [] = Inr crits"
    and r: "resolve_rounds p max_rounds (nat max_rounds)
              [\<lparr>State.mapping = [], criteria = crits\<rparr>] = Inr states"
    by (auto simp: resolve_def push_new_state_def split: sum.splits)
  have "crits_ok ([] :: ('c \<times> ('a, 'b) Criterion) list)" by (simp add: crits_ok_def)
  from contribute_roots_ok [OF c this] have "crits_ok crits" .
  then have "\<forall>st \<in> set [\<lparr>State.mapping = [], criteria = crits\<rparr>]. state_ok st"
    by (simp add: initial_state_ok)
  with resolve_rounds_ok [OF r] show ?thesis by simp
qed

lemma reachable_ok:
  "reachable p rs states \<Longrightarrow> states \<noteq> [] \<and> (\<forall>st \<in> set states. state_ok st)"
proof (induction rule: reachable.induct)
  case (start crits)
  have "crits_ok ([] :: ('c \<times> ('a, 'b) Criterion) list)" by (simp add: crits_ok_def)
  from contribute_roots_ok [OF start this] show ?case by (simp add: initial_state_ok)
next
  case (round states returned states')
  from resolve_round_ok [OF round.hyps(2)] round.IH show ?case by blast
qed

lemma resolve_rounds_reachable:
  "resolve_rounds p max_rounds n states = Inr states' \<Longrightarrow> reachable p rs states
     \<Longrightarrow> reachable p rs states'"
proof (induction n arbitrary: states)
  case 0
  then show ?case by simp
next
  case (Suc n)
  from Suc.prems(1) obtain returned states1 where
    r: "resolve_round p states = Inr (returned, states1)"
    by (auto split: sum.splits)
  from reachable.round [OF Suc.prems(2) r] have s1: "reachable p rs states1" .
  show ?case
  proof (cases returned)
    case True
    with Suc.prems(1) r s1 show ?thesis by simp
  next
    case False
    with Suc.prems(1) r have "resolve_rounds p max_rounds n states1 = Inr states'" by simp
    with Suc.IH s1 show ?thesis by blast
  qed
qed

lemma resolve_reachable:
  assumes "resolve p [] rs max_rounds = Inr states"
  shows "reachable p rs states"
proof -
  from assms obtain crits where
    c: "contribute_roots p rs [] = Inr crits"
    and r: "resolve_rounds p max_rounds (nat max_rounds)
              [\<lparr>State.mapping = [], criteria = crits\<rparr>] = Inr states"
    by (auto simp: resolve_def push_new_state_def split: sum.splits)
  from resolve_rounds_reachable [OF r reachable.start [OF c]] show ?thesis .
qed

lemma build_result_fields:
  assumes "build_result d st = Inr res"
  shows "criteria res = State.criteria st
           \<and> (\<exists>connected. mapping res = filter (\<lambda>(k, v). Some k \<in> connected) (State.mapping st))"
  using assms by (auto simp: build_result_def Let_def split: sum.splits)

subsection \<open>Backtracking\<close>

text \<open>
  The initial frame stays at the bottom of the stack and its mapping stays empty: pins are
  made in the frames that the rounds push. So the backtracking, when it has deleted every
  frame above the initial one, calls \<open>popitem\<close> on an empty mapping, and neither it nor
  \<open>resolve\<close> ever raises \<open>ResolutionImpossible\<close>.
\<close>

lemma check_pinnability_returns: "check_pinnability p C st \<noteq> Inl e"
proof (cases "contribute_subdeps p C (get_dependencies p C) (State.criteria st)")
  case (Pair r crits)
  show ?thesis
  proof (cases r)
    case None
    with Pair show ?thesis by (simp add: check_pinnability_def)
  next
    case (Some e')
    with Pair have "contribute_subdeps p C (get_dependencies p C) (State.criteria st)
        = (Some e', crits)" by simp
    from contribute_subdeps_conflict [OF this] obtain c where "e' = RequirementsConflicted c"
      by blast
    with Pair Some show ?thesis by (simp add: check_pinnability_def)
  qed
qed

lemma pin_candidates_returns: "pin_candidates p name cands st \<noteq> Inl e"
  by (induction cands arbitrary: st)
     (auto simp: check_pinnability_returns split: sum.splits)

lemma backtrack_bottom_empty:
  "2 \<le> length states \<Longrightarrow> State.mapping (last states) = []
     \<Longrightarrow> (\<forall>rs. backtrack_to_last_workable_state states trigger \<noteq> Inl (ResolutionImpossible rs))
         \<and> (\<forall>states'. backtrack_to_last_workable_state states trigger = Inr states'
               \<longrightarrow> states' \<noteq> [] \<and> State.mapping (last states') = [])"
proof (induction states trigger rule: backtrack_to_last_workable_state.induct)
  case (1 criterion)
  then show ?case by simp
next
  case (2 popped criterion)
  then show ?case by simp
next
  case (3 popped st below criterion)
  show ?case
  proof (cases below)
    case Nil
    with "3.prems" show ?thesis by (simp add: popitem_def)
  next
    case (Cons s below')
    with "3.prems" have len: "2 \<le> length (st # below)"
      and bottom: "State.mapping (last below) = []" by simp_all
    show ?thesis
    proof (cases "popitem (State.mapping st)")
      case None
      then show ?thesis by simp
    next
      case (Some x)
      obtain name candidate m where x: "x = ((name, candidate), m)"
        by (cases x) auto
      show ?thesis
      proof (cases "map_of (State.criteria st) name")
        case None
        with Some x show ?thesis by simp
      next
        case crit: (Some crit)
        show ?thesis
        proof (cases "excluded_of crit candidate")
          case (Inl e)
          then obtain c where e: "e = RequirementsConflicted c"
            by (auto simp: excluded_of_Inl_iff)
          from len Cons have l: "2 \<le> length (st\<lparr>State.mapping := m\<rparr> # below)" by simp
          from bottom Cons have b: "State.mapping (last (st\<lparr>State.mapping := m\<rparr> # below)) = []"
            by simp
          from "3.IH" [OF Some [unfolded x] refl refl crit Inl e l b] Some x crit Inl e
          show ?thesis by simp
        next
          case (Inr crit')
          with Some x crit bottom Cons show ?thesis by simp
        qed
      qed
    qed
  qed
qed

lemma resolve_round_bottom_empty:
  assumes "states \<noteq> []" and "State.mapping (last states) = []"
  shows "(\<forall>rs. resolve_round p states \<noteq> Inl (ResolutionImpossible rs))
         \<and> (\<forall>returned states'. resolve_round p states = Inr (returned, states')
               \<longrightarrow> states' \<noteq> [] \<and> State.mapping (last states') = [])"
proof -
  from assms(1) obtain st rest where states: "states = st # rest" by (cases states) auto
  note push = push_new_state_Cons [of st rest]
  let ?pending = "filter (\<lambda>(name, criterion). \<not> is_current_pin_satisfying p st name criterion)
                    (State.criteria st)"
  show ?thesis
  proof (cases ?pending)
    case Nil
    with assms states show ?thesis by (simp add: resolve_round_def push)
  next
    case (Cons item items)
    obtain name criterion where
      chosen: "min_by (get_criterion_item_preference p st) item items = (name, criterion)"
      by (cases "min_by (get_criterion_item_preference p st) item items")
    show ?thesis
    proof (cases "pin_criterion p name criterion st")
      case (Inl e)
      then show ?thesis by (simp add: pin_criterion_def pin_candidates_returns)
    next
      case (Inr r)
      obtain success current' where r: "r = (success, current')" by (cases r)
      show ?thesis
      proof (cases success)
        case True
        with Cons chosen Inr r assms states show ?thesis
          by (simp add: resolve_round_def push)
      next
        case False
        from assms states have "2 \<le> length (current' # st # rest)"
          and "State.mapping (last (current' # st # rest)) = []" by simp_all
        note bt = backtrack_bottom_empty [OF this, of criterion]
        show ?thesis
        proof (cases "backtrack_to_last_workable_state (current' # st # rest) criterion")
          case e: (Inl e)
          with bt have "\<forall>rs. e \<noteq> ResolutionImpossible rs" by auto
          with e False Cons chosen Inr r states show ?thesis
            by (simp add: resolve_round_def push
                  del: backtrack_to_last_workable_state.simps)
        next
          case s: (Inr states1)
          with bt have "states1 \<noteq> []" and "State.mapping (last states1) = []" by simp_all
          with s False Cons chosen Inr r states show ?thesis
            by (simp add: resolve_round_def push
                  del: backtrack_to_last_workable_state.simps)
        qed
      qed
    qed
  qed
qed

lemma reachable_bottom_empty:
  "reachable p rs states \<Longrightarrow> states \<noteq> [] \<and> State.mapping (last states) = []"
proof (induction rule: reachable.induct)
  case (start crits)
  show ?case by simp
next
  case (round states returned states')
  with resolve_round_bottom_empty [of states p] show ?case by blast
qed

lemma contribute_roots_error:
  "contribute_roots p rs crits = Inl e \<Longrightarrow> e = AttributeError ''requirements''"
proof (induction rs arbitrary: crits)
  case Nil
  then show ?case by simp
next
  case (Cons requirement rest)
  show ?case
  proof (cases "contribute_to_criteria p (identify p requirement) requirement None crits")
    case (Inl e')
    from contribute_to_criteria_conflict [OF this] obtain c where
      "e' = RequirementsConflicted c" by blast
    with Inl Cons.prems show ?thesis by simp
  next
    case (Inr crits')
    with Cons show ?thesis by simp
  qed
qed

lemma resolve_rounds_never_impossible:
  "states \<noteq> [] \<Longrightarrow> State.mapping (last states) = []
     \<Longrightarrow> resolve_rounds p max_rounds n states \<noteq> Inl (ResolutionImpossible rs)"
proof (induction n arbitrary: states)
  case 0
  then show ?case by simp
next
  case (Suc n)
  note b = resolve_round_bottom_empty [OF Suc.prems, of p]
  show ?case
  proof (cases "resolve_round p states")
    case (Inl e)
    with b show ?thesis by auto
  next
    case (Inr r)
    obtain returned states' where r: "r = (returned, states')" by (cases r)
    with Inr b have "states' \<noteq> []" and "State.mapping (last states') = []" by simp_all
    from Suc.IH [OF this] Inr r show ?thesis by simp
  qed
qed

lemma resolve_never_impossible:
  "resolve p [] requirements max_rounds \<noteq> Inl (ResolutionImpossible rs)"
proof (cases "contribute_roots p requirements []")
  case (Inl e)
  from contribute_roots_error [OF this] Inl show ?thesis
    by (simp add: resolve_def push_new_state_def)
next
  case (Inr crits)
  have "resolve_rounds p max_rounds (nat max_rounds) [\<lparr>State.mapping = [], criteria = crits\<rparr>]
      \<noteq> Inl (ResolutionImpossible rs)"
    by (rule resolve_rounds_never_impossible) simp_all
  with Inr show ?thesis by (simp add: resolve_def push_new_state_def)
qed

text \<open>
  C4. The claim is that \<open>_backtrack_to_last_workable_state\<close> deletes one frame per
  iteration and, when no frame is left to go back to, raises \<open>ResolutionImpossible\<close>
  with the requirements of the trigger. For the roots \<open>(1, 1, 10)\<close> and
  \<open>(0, 2, 10)\<close> the first round pins \<open>(1, 1)\<close>; in the second round the only
  candidate of identifier 0 cannot be pinned, and \<open>resolve\<close> calls the backtracking on
  the stack of the round's frame, the frame of the first round and the initial frame. It
  deletes the round's frame, removes the pin \<open>(1, 1)\<close>, whose exclusion conflicts,
  deletes the frame of the first round, and then calls \<open>popitem\<close> on the empty mapping
  of the initial frame: \<open>KeyError\<close> is raised where the claim has
  \<open>ResolutionImpossible\<close>.
\<close>

theorem backtrack_exhausted_key_error:
  "resolve_round example_provider
       [\<lparr>State.mapping = [],
          criteria =
            [(1, \<lparr>candidates = [(1, 1)], information = [((1, 1, 10), None)],
                   incompatibilities = []\<rparr>),
             (0, \<lparr>candidates = [(0, 2)], information = [((0, 2, 10), None)],
                   incompatibilities = []\<rparr>)]\<rparr>]
     = Inr (False,
         [\<lparr>State.mapping = [(1, (1, 1))],
            criteria =
              [(1, \<lparr>candidates = [(1, 1)], information = [((1, 1, 10), None)],
                     incompatibilities = []\<rparr>),
               (0, \<lparr>candidates = [(0, 2)], information = [((0, 2, 10), None)],
                     incompatibilities = []\<rparr>),
               (2, \<lparr>candidates = [(2, 1)], information = [((2, 0, 2), Some (1, 1))],
                     incompatibilities = []\<rparr>)]\<rparr>,
          \<lparr>State.mapping = [],
            criteria =
              [(1, \<lparr>candidates = [(1, 1)], information = [((1, 1, 10), None)],
                     incompatibilities = []\<rparr>),
               (0, \<lparr>candidates = [(0, 2)], information = [((0, 2, 10), None)],
                     incompatibilities = []\<rparr>)]\<rparr>])
   \<and> pin_criterion example_provider 0
       \<lparr>candidates = [(0, 2)], information = [((0, 2, 10), None)], incompatibilities = []\<rparr>
       \<lparr>State.mapping = [(1, (1, 1))],
         criteria =
           [(1, \<lparr>candidates = [(1, 1)], information = [((1, 1, 10), None)],
                  incompatibilities = []\<rparr>),
            (0, \<lparr>candidates = [(0, 2)], information = [((0, 2, 10), None)],
                  incompatibilities = []\<rparr>),
            (2, \<lparr>candidates = [(2, 1)], information = [((2, 0, 2), Some (1, 1))],
                  incompatibilities = []\<rparr>)]\<rparr>
     = Inr (False,
         \<lparr>State.mapping = [(1, (1, 1))],
           criteria =
             [(1, \<lparr>candidates = [(1, 1)], information = [((1, 1, 10), None)],
                    incompatibilities = []\<rparr>),
              (0, \<lparr>candidates = [(0, 2)], information = [((0, 2, 10), None)],
                    incompatibilities = []\<rparr>),
              (2, \<lparr>candidates = [(2, 1)], information = [((2, 0, 2), Some (1, 1))],
                    incompatibilities = []\<rparr>)]\<rparr>)
   \<and> backtrack_to_last_workable_state
       [\<lparr>State.mapping = [(1 :: nat, (1 :: nat, 1 :: nat))],
          criteria =
            [(1, \<lparr>candidates = [(1, 1)],
                   information = [((1 :: nat, 1 :: nat, 10 :: nat), None)],
                   incompatibilities = []\<rparr>),
             (0, \<lparr>candidates = [(0, 2)], information = [((0, 2, 10), None)],
                   incompatibilities = []\<rparr>),
             (2, \<lparr>candidates = [(2, 1)], information = [((2, 0, 2), Some (1, 1))],
                   incompatibilities = []\<rparr>)]\<rparr>,
        \<lparr>State.mapping = [(1, (1, 1))],
          criteria =
            [(1, \<lparr>candidates = [(1, 1)], information = [((1, 1, 10), None)],
                   incompatibilities = []\<rparr>),
             (0, \<lparr>candidates = [(0, 2)], information = [((0, 2, 10), None)],
                   incompatibilities = []\<rparr>),
             (2, \<lparr>candidates = [(2, 1)], information = [((2, 0, 2), Some (1, 1))],
                   incompatibilities = []\<rparr>)]\<rparr>,
        \<lparr>State.mapping = [],
          criteria =
            [(1, \<lparr>candidates = [(1, 1)], information = [((1, 1, 10), None)],
                   incompatibilities = []\<rparr>),
             (0, \<lparr>candidates = [(0, 2)], information = [((0, 2, 10), None)],
                   incompatibilities = []\<rparr>)]\<rparr>]
       \<lparr>candidates = [(0, 2)], information = [((0, 2, 10), None)], incompatibilities = []\<rparr>
     = Inl KeyError
   \<and> resolve example_provider [] [(1, 1, 10), (0, 2, 10)] 100 = Inl KeyError"
  by code_simp

subsection \<open>Soundness of the pinning\<close>

text \<open>
  C1. Whenever \<open>Resolver.resolve\<close> returns a result, every identifier \<open>K\<close> that the
  result's mapping pins to a candidate \<open>C\<close> has a criterion in the result's criteria;
  \<open>C\<close> satisfies the requirement of every entry of that criterion's information, and
  \<open>C\<close> is not among that criterion's incompatibilities.
\<close>

theorem pinning_sound:
  assumes "Resolver_resolve d p requirements max_rounds = Inr res"
    and "map_of (mapping res) K = Some C"
  shows "\<exists>crit. map_of (criteria res) K = Some crit
           \<and> (\<forall>info \<in> set (information crit). is_satisfied_by p (fst info) C)
           \<and> C \<notin> set (incompatibilities crit)"
proof -
  from assms(1) obtain st below where
    r: "resolve p [] requirements max_rounds = Inr (st # below)"
    and b: "build_result d st = Inr res"
    by (auto simp: Resolver_resolve_def split: sum.splits list.splits)
  from resolve_ok [OF r] have ok: "state_ok st" and sat: "all_satisfied p st" by simp_all
  from build_result_fields [OF b] obtain connected where
    crits: "criteria res = State.criteria st"
    and m: "mapping res = filter (\<lambda>(k, v). Some k \<in> connected) (State.mapping st)"
    by blast
  from assms(2) have "(K, C) \<in> set (mapping res)" by (rule map_of_SomeD)
  with m have "(K, C) \<in> set (State.mapping st)" by simp
  with ok have pin: "map_of (State.mapping st) K = Some C" by (simp add: state_ok_def)
  with ok obtain crit where c: "map_of (State.criteria st) K = Some crit"
    and i: "C \<notin> set (incompatibilities crit)"
    unfolding state_ok_def pins_ok_def by blast
  from sat c have "is_current_pin_satisfying p st K crit" by (simp add: all_satisfied_def)
  with pin have "\<forall>info \<in> set (information crit). is_satisfied_by p (fst info) C"
    by (simp add: is_current_pin_satisfying_def list_all_iff iter_requirement_def)
  with c i crits show ?thesis by simp
qed

theorem pinning_sound_witness:
  "Resolver_resolve 1000 example_provider [(3, 1, 10), (4, 1, 10)] 100
     = Inr \<lparr>mapping = [(3, (3, 2)), (4, (4, 2))],
            graph = \<lparr>vertices = {Some 4, Some 3, None},
                      edges = {(Some 3, Some 4), (None, Some 4), (None, Some 3)}\<rparr>,
            criteria =
              [(3, \<lparr>candidates = [(3, 2)], information = [((3, 1, 10), None)],
                     incompatibilities = [(3, 1)]\<rparr>),
               (4, \<lparr>candidates = [(4, 2)],
                     information = [((4, 1, 10), None), ((4, 2, 10), Some (3, 2))],
                     incompatibilities = []\<rparr>)]\<rparr>
   \<and> (\<exists>crit. map_of [(3, \<lparr>candidates = [(3, 2)], information = [((3, 1, 10), None)],
                     incompatibilities = [(3, 1)]\<rparr>),
               (4 :: nat, \<lparr>candidates = [(4 :: nat, 2 :: nat)],
                     information = [((4 :: nat, 1 :: nat, 10 :: nat), None), ((4, 2, 10), Some (3, 2))],
                     incompatibilities = []\<rparr>)] 3 = Some crit
         \<and> is_satisfied_by example_provider (3, 1, 10) (3, 2)
         \<and> incompatibilities crit = [(3, 1)]
         \<and> (3, 2) \<notin> set (incompatibilities crit))"
proof -
  let ?res = "\<lparr>mapping = [(3 :: nat, (3 :: nat, 2 :: nat)), (4, (4, 2))],
            graph = \<lparr>vertices = {Some 4, Some 3, None},
                      edges = {(Some 3, Some 4), (None, Some 4), (None, Some 3)}\<rparr>,
            criteria =
              [(3, \<lparr>candidates = [(3, 2)], information = [((3 :: nat, 1 :: nat, 10 :: nat), None)],
                     incompatibilities = [(3, 1)]\<rparr>),
               (4, \<lparr>candidates = [(4, 2)],
                     information = [((4, 1, 10), None), ((4, 2, 10), Some (3, 2))],
                     incompatibilities = []\<rparr>)]\<rparr>"
  have r: "Resolver_resolve 1000 example_provider [(3, 1, 10), (4, 1, 10)] 100 = Inr ?res"
    by code_simp
  have m: "map_of (mapping ?res) 3 = Some (3, 2)" by simp
  from pinning_sound [OF r m] r show ?thesis by simp
qed

subsection \<open>Disjointness of candidates and incompatibilities\<close>

text \<open>
  C9. The criterion built by \<open>from_requirement\<close> has no candidate among its
  incompatibilities; \<open>merged_with\<close> and \<open>excluded_of\<close> return such a criterion when
  given one. The stack that \<open>resolve\<close> ends with is one of the stacks it goes through,
  and in every frame of every such stack, every criterion of the criteria dictionary has
  no candidate among its incompatibilities.
\<close>

theorem criteria_disjoint:
  "set (candidates (from_requirement p R parent))
       \<inter> set (incompatibilities (from_requirement p R parent)) = {}
   \<and> (set (candidates c) \<inter> set (incompatibilities c) = {} \<longrightarrow>
        merged_with c p R parent = Inr c' \<longrightarrow>
        set (candidates c') \<inter> set (incompatibilities c') = {})
   \<and> (set (candidates c) \<inter> set (incompatibilities c) = {} \<longrightarrow>
        excluded_of c C = Inr c'' \<longrightarrow>
        set (candidates c'') \<inter> set (incompatibilities c'') = {})
   \<and> (resolve p [] rs max_rounds = Inr final \<longrightarrow> reachable p rs final)
   \<and> (reachable p rs states \<longrightarrow>
        (\<forall>st \<in> set states. \<forall>kc \<in> set (State.criteria st).
           set (candidates (snd kc)) \<inter> set (incompatibilities (snd kc)) = {}))"
proof -
  have "reachable p rs states \<longrightarrow>
        (\<forall>st \<in> set states. \<forall>kc \<in> set (State.criteria st). crit_disjoint (snd kc))"
  proof (intro impI ballI)
    fix st kc
    assume "reachable p rs states" and st: "st \<in> set states"
      and kc: "kc \<in> set (State.criteria st)"
    from reachable_ok [OF this(1)] st have "state_ok st" by simp
    then have d: "distinct (map fst (State.criteria st))"
      and a: "\<forall>k c. map_of (State.criteria st) k = Some c \<longrightarrow> crit_disjoint c"
      by (simp_all add: state_ok_def crits_ok_def)
    from kc d have "map_of (State.criteria st) (fst kc) = Some (snd kc)" by simp
    with a show "crit_disjoint (snd kc)" by blast
  qed
  with from_requirement_disjoint [of p R parent] merged_with_disjoint [of c p R parent c']
    excluded_of_disjoint [of c C c''] resolve_reachable [of p rs max_rounds final]
  show ?thesis unfolding crit_disjoint_def by blast
qed

theorem criteria_disjoint_witness:
  "resolve example_provider [] [(3, 1, 10), (4, 1, 10)] 100
     = Inr [\<lparr>State.mapping = [(3, (3, 2)), (4, (4, 2))],
          criteria =
            [(3, \<lparr>candidates = [(3, 2)], information = [((3, 1, 10), None)],
                   incompatibilities = [(3, 1)]\<rparr>),
             (4, \<lparr>candidates = [(4, 2)],
                   information = [((4, 1, 10), None), ((4, 2, 10), Some (3, 2))],
                   incompatibilities = []\<rparr>)]\<rparr>,
       \<lparr>State.mapping = [(3, (3, 2))],
          criteria =
            [(3, \<lparr>candidates = [(3, 2)], information = [((3, 1, 10), None)],
                   incompatibilities = [(3, 1)]\<rparr>),
             (4, \<lparr>candidates = [(4, 2)],
                   information = [((4, 1, 10), None), ((4, 2, 10), Some (3, 2))],
                   incompatibilities = []\<rparr>)]\<rparr>,
       \<lparr>State.mapping = [],
          criteria =
            [(3, \<lparr>candidates = [(3, 2)], information = [((3, 1, 10), None)],
                   incompatibilities = [(3, 1)]\<rparr>),
             (4, \<lparr>candidates = [(4, 2), (4, 1)], information = [((4, 1, 10), None)],
                   incompatibilities = []\<rparr>)]\<rparr>,
       \<lparr>State.mapping = [],
          criteria =
            [(3, \<lparr>candidates = [(3, 2), (3, 1)], information = [((3, 1, 10), None)],
                   incompatibilities = []\<rparr>),
             (4, \<lparr>candidates = [(4, 2), (4, 1)], information = [((4, 1, 10), None)],
                   incompatibilities = []\<rparr>)]\<rparr>]
   \<and> set [(3 :: nat, 2 :: nat)] \<inter> set [(3, 1)] = {}
   \<and> excluded_of \<lparr>candidates = [(3 :: nat, 2 :: nat), (3, 1)],
                    information = [((3 :: nat, 1 :: nat, 10 :: nat), None)],
                    incompatibilities = []\<rparr> (3, 1)
       = Inr \<lparr>candidates = [(3, 2)], information = [((3, 1, 10), None)],
                   incompatibilities = [(3, 1)]\<rparr>"
proof -
  let ?c = "\<lparr>candidates = [(3 :: nat, 2 :: nat), (3, 1)],
                    information = [((3 :: nat, 1 :: nat, 10 :: nat), None :: (nat \<times> nat) option)],
                    incompatibilities = []\<rparr>"
  let ?c' = "\<lparr>candidates = [(3 :: nat, 2 :: nat)],
                    information = [((3 :: nat, 1 :: nat, 10 :: nat), None :: (nat \<times> nat) option)],
                    incompatibilities = [(3, 1)]\<rparr>"
  let ?final = "[\<lparr>State.mapping = [(3 :: nat, (3 :: nat, 2 :: nat)), (4, (4, 2))],
          criteria =
            [(3, ?c'),
             (4, \<lparr>candidates = [(4, 2)],
                   information = [((4, 1, 10), None), ((4, 2, 10), Some (3, 2))],
                   incompatibilities = []\<rparr>)]\<rparr>,
       \<lparr>State.mapping = [(3, (3, 2))],
          criteria =
            [(3, ?c'),
             (4, \<lparr>candidates = [(4, 2)],
                   information = [((4, 1, 10), None), ((4, 2, 10), Some (3, 2))],
                   incompatibilities = []\<rparr>)]\<rparr>,
       \<lparr>State.mapping = [],
          criteria =
            [(3, ?c'),
             (4, \<lparr>candidates = [(4, 2), (4, 1)], information = [((4, 1, 10), None)],
                   incompatibilities = []\<rparr>)]\<rparr>,
       \<lparr>State.mapping = [],
          criteria =
            [(3, ?c),
             (4, \<lparr>candidates = [(4, 2), (4, 1)], information = [((4, 1, 10), None)],
                   incompatibilities = []\<rparr>)]\<rparr>]"
  have r: "resolve example_provider [] [(3, 1, 10), (4, 1, 10)] 100 = Inr ?final"
    by code_simp
  have e: "excluded_of ?c (3, 1) = Inr ?c'" by (simp add: excluded_of_def)
  note inst = criteria_disjoint [where p = example_provider and c = ?c and C = "(3, 1)"
      and c'' = ?c' and rs = "[(3, 1, 10), (4, 1, 10)]" and max_rounds = 100
      and final = ?final and states = ?final]
  from inst r have "reachable example_provider [(3, 1, 10), (4, 1, 10)] ?final" by blast
  with inst have "\<forall>st \<in> set ?final. \<forall>kc \<in> set (State.criteria st).
           set (candidates (snd kc)) \<inter> set (incompatibilities (snd kc)) = {}" by blast
  then have "set [(3 :: nat, 2 :: nat)] \<inter> set [(3, 1)] = {}" by simp
  with r e show ?thesis by blast
qed

end
